theory Spec2Isabelle
  imports Complex_Main "HOL-Library.Word" "HOL-Library.Sublist"
begin

unbundle bit_operations_syntax

section \<open>Data model (src/store/usePdfStore.ts)\<close>

text \<open>
  The TypeScript record types of the store. A JavaScript \<open>number\<close> that carries a
  coordinate or a size is modelled as a \<open>real\<close> (rounding, NaN and the infinities are
  outside the model); a page index is a \<open>nat\<close>; an optional property is an \<open>option\<close>.
  Field names carry a prefix, since record selectors are global constants.
\<close>

record Field =
  f_id :: string
  f_pageIndex :: nat
  f_x :: real
  f_y :: real
  f_width :: real
  f_height :: real
  f_multiline :: bool
  f_confidence :: "real option"
  f_name :: string
  f_placeholder :: "string option"

record PageMeta =
  p_index :: nat
  p_width :: real
  p_height :: real
  p_originalWidth :: real
  p_originalHeight :: real
  p_scale :: real

text \<open>
  \<open>pdfDoc\<close> is a handle of the PDF reader; the store only keeps it and calls its
  \<open>destroy\<close> method on removal, which changes nothing in the store.
\<close>

record PdfDocumentRecord =
  d_id :: string
  d_fileName :: string
  d_pdfDoc :: nat
  d_documentData :: "8 word list"
  d_pages :: "PageMeta list"
  d_fields :: "Field list"
  d_selectedFieldId :: "string option"

record PdfState =
  documents :: "PdfDocumentRecord list"
  activeDocumentId :: "string option"

text \<open>\<open>Partial<Field>\<close>: every property may be missing from the patch.\<close>

record FieldPatch =
  u_id :: "string option"
  u_pageIndex :: "nat option"
  u_x :: "real option"
  u_y :: "real option"
  u_width :: "real option"
  u_height :: "real option"
  u_multiline :: "bool option"
  u_confidence :: "real option option"
  u_name :: "string option"
  u_placeholder :: "string option option"

definition orElse :: "'a option \<Rightarrow> 'a \<Rightarrow> 'a" where
  "orElse v d = (case v of None \<Rightarrow> d | Some w \<Rightarrow> w)"

text \<open>The object spread \<open>{ ...field, ...updates }\<close>.\<close>

definition applyPatch :: "Field \<Rightarrow> FieldPatch \<Rightarrow> Field" where
  "applyPatch field updates =
     \<lparr> f_id = orElse (u_id updates) (f_id field),
       f_pageIndex = orElse (u_pageIndex updates) (f_pageIndex field),
       f_x = orElse (u_x updates) (f_x field),
       f_y = orElse (u_y updates) (f_y field),
       f_width = orElse (u_width updates) (f_width field),
       f_height = orElse (u_height updates) (f_height field),
       f_multiline = orElse (u_multiline updates) (f_multiline field),
       f_confidence = orElse (u_confidence updates) (f_confidence field),
       f_name = orElse (u_name updates) (f_name field),
       f_placeholder = orElse (u_placeholder updates) (f_placeholder field) \<rparr>"

section \<open>The document and field store\<close>

definition updateDocument ::
  "PdfDocumentRecord list \<Rightarrow> string \<Rightarrow> (PdfDocumentRecord \<Rightarrow> PdfDocumentRecord)
     \<Rightarrow> PdfDocumentRecord list" where
  "updateDocument docs i updater = map (\<lambda>document. if d_id document = i then updater document else document) docs"

definition initialState :: PdfState where
  "initialState = \<lparr> documents = [], activeDocumentId = None \<rparr>"

definition addDocument :: "PdfDocumentRecord \<Rightarrow> PdfState \<Rightarrow> PdfState" where
  "addDocument entry state =
     \<lparr> documents = documents state @ [entry], activeDocumentId = Some (d_id entry) \<rparr>"

definition removeDocument :: "string \<Rightarrow> PdfState \<Rightarrow> PdfState" where
  "removeDocument i state =
     (let remaining = filter (\<lambda>document. d_id document \<noteq> i) (documents state);
          nextActive =
            (if activeDocumentId state = Some i
             then (case remaining of [] \<Rightarrow> None | document # _ \<Rightarrow> Some (d_id document))
             else activeDocumentId state)
      in \<lparr> documents = remaining, activeDocumentId = nextActive \<rparr>)"

definition clearAll :: "PdfState \<Rightarrow> PdfState" where
  "clearAll state = \<lparr> documents = [], activeDocumentId = None \<rparr>"

definition setActiveDocument :: "string \<Rightarrow> PdfState \<Rightarrow> PdfState" where
  "setActiveDocument i state =
     state \<lparr> activeDocumentId :=
       (if list_ex (\<lambda>document. d_id document = i) (documents state)
        then Some i else activeDocumentId state) \<rparr>"

definition addField :: "string \<Rightarrow> Field \<Rightarrow> PdfState \<Rightarrow> PdfState" where
  "addField documentId field state =
     state \<lparr> documents := updateDocument (documents state) documentId
       (\<lambda>document. document \<lparr> d_fields := d_fields document @ [field],
                               d_selectedFieldId := Some (f_id field) \<rparr>) \<rparr>"

definition updateField :: "string \<Rightarrow> string \<Rightarrow> FieldPatch \<Rightarrow> PdfState \<Rightarrow> PdfState" where
  "updateField documentId fieldId updates state =
     state \<lparr> documents := updateDocument (documents state) documentId
       (\<lambda>document. document \<lparr> d_fields :=
          map (\<lambda>field. if f_id field = fieldId then applyPatch field updates else field)
              (d_fields document) \<rparr>) \<rparr>"

definition removeField :: "string \<Rightarrow> string \<Rightarrow> PdfState \<Rightarrow> PdfState" where
  "removeField documentId fieldId state =
     state \<lparr> documents := updateDocument (documents state) documentId
       (\<lambda>document. document \<lparr> d_fields := filter (\<lambda>field. f_id field \<noteq> fieldId) (d_fields document),
                               d_selectedFieldId :=
                                 (if d_selectedFieldId document = Some fieldId then None
                                  else d_selectedFieldId document) \<rparr>) \<rparr>"

text \<open>\<open>fields.length ? fields[fields.length - 1]?.id : undefined\<close>\<close>

definition lastId :: "Field list \<Rightarrow> string option" where
  "lastId fs = (if fs = [] then None else Some (f_id (last fs)))"

definition setFields :: "string \<Rightarrow> Field list \<Rightarrow> PdfState \<Rightarrow> PdfState" where
  "setFields documentId fs state =
     state \<lparr> documents := updateDocument (documents state) documentId
       (\<lambda>document. document \<lparr> d_fields := fs, d_selectedFieldId := lastId fs \<rparr>) \<rparr>"

text \<open>The predicate of \<open>combined.some(...)\<close> in \<open>mergeFields\<close>.\<close>

definition nearDuplicate :: "Field \<Rightarrow> Field \<Rightarrow> bool" where
  "nearDuplicate candidate existing \<longleftrightarrow>
     f_pageIndex existing = f_pageIndex candidate \<and>
     \<bar>f_x existing - f_x candidate\<bar> < 10 \<and>
     \<bar>f_y existing - f_y candidate\<bar> < 10 \<and>
     \<bar>f_width existing - f_width candidate\<bar> < 15"

text \<open>One round of \<open>candidates.forEach\<close>: push the candidate unless it has a duplicate.\<close>

definition mergeStep :: "Field list \<Rightarrow> Field \<Rightarrow> Field list" where
  "mergeStep combined candidate =
     (if list_ex (nearDuplicate candidate) combined then combined else combined @ [candidate])"

definition mergeCombined :: "Field list \<Rightarrow> Field list \<Rightarrow> Field list" where
  "mergeCombined fs candidates = foldl mergeStep fs candidates"

definition mergeFields :: "string \<Rightarrow> Field list \<Rightarrow> PdfState \<Rightarrow> PdfState" where
  "mergeFields documentId candidates state =
     state \<lparr> documents := updateDocument (documents state) documentId
       (\<lambda>document.
          let combined = mergeCombined (d_fields document) candidates
          in document \<lparr> d_fields := combined, d_selectedFieldId := lastId combined \<rparr>) \<rparr>"

definition selectField :: "string \<Rightarrow> string option \<Rightarrow> PdfState \<Rightarrow> PdfState" where
  "selectField documentId fieldId state =
     state \<lparr> documents := updateDocument (documents state) documentId
       (\<lambda>document. document \<lparr> d_selectedFieldId := fieldId \<rparr>) \<rparr>"

text \<open>The ten operations of the store as commands, and their effect on the state.\<close>

datatype StoreOp =
    AddDocument PdfDocumentRecord
  | RemoveDocument string
  | ClearAll
  | SetActiveDocument string
  | AddField string Field
  | UpdateField string string FieldPatch
  | RemoveField string string
  | SetFields string "Field list"
  | MergeFields string "Field list"
  | SelectField string "string option"

fun applyOp :: "PdfState \<Rightarrow> StoreOp \<Rightarrow> PdfState" where
  "applyOp state (AddDocument entry) = addDocument entry state"
| "applyOp state (RemoveDocument i) = removeDocument i state"
| "applyOp state ClearAll = clearAll state"
| "applyOp state (SetActiveDocument i) = setActiveDocument i state"
| "applyOp state (AddField documentId field) = addField documentId field state"
| "applyOp state (UpdateField documentId fieldId updates) = updateField documentId fieldId updates state"
| "applyOp state (RemoveField documentId fieldId) = removeField documentId fieldId state"
| "applyOp state (SetFields documentId fs) = setFields documentId fs state"
| "applyOp state (MergeFields documentId candidates) = mergeFields documentId candidates state"
| "applyOp state (SelectField documentId fieldId) = selectField documentId fieldId state"

definition runOps :: "StoreOp list \<Rightarrow> PdfState" where
  "runOps ops = foldl applyOp initialState ops"

text \<open>
  The selection invariant of the data model: a document's \<open>selectedFieldId\<close> is absent
  or the id of one of its fields.
\<close>

definition selectionValid :: "PdfDocumentRecord \<Rightarrow> bool" where
  "selectionValid document =
     (case d_selectedFieldId document of
        None \<Rightarrow> True
      | Some i \<Rightarrow> list_ex (\<lambda>field. f_id field = i) (d_fields document))"

definition storeSelectionValid :: "PdfState \<Rightarrow> bool" where
  "storeSelectionValid state = list_all selectionValid (documents state)"

text \<open>
  Arguments under which the store keeps the selection invariant: a document is added
  with a valid selection of its own, a patch does not rename the id of a field, and a
  field is selected only if every targeted document has it.
\<close>

fun selectionSafe :: "PdfState \<Rightarrow> StoreOp \<Rightarrow> bool" where
  "selectionSafe state (AddDocument entry) = selectionValid entry"
| "selectionSafe state (UpdateField documentId fieldId updates) = (u_id updates = None)"
| "selectionSafe state (SelectField documentId fieldId) =
     (case fieldId of
        None \<Rightarrow> True
      | Some i \<Rightarrow> list_all (\<lambda>document. d_id document = documentId \<longrightarrow>
                                list_ex (\<lambda>field. f_id field = i) (d_fields document))
                    (documents state))"
| "selectionSafe state othr = True"

fun runSafeOps :: "PdfState \<Rightarrow> StoreOp list \<Rightarrow> PdfState option" where
  "runSafeOps state [] = Some state"
| "runSafeOps state (op # ops) =
     (if selectionSafe state op then runSafeOps (applyOp state op) ops else None)"

text \<open>The document-targeting mutations, for the frame property.\<close>

fun targetOf :: "StoreOp \<Rightarrow> string option" where
  "targetOf (AddField documentId field) = Some documentId"
| "targetOf (UpdateField documentId fieldId updates) = Some documentId"
| "targetOf (RemoveField documentId fieldId) = Some documentId"
| "targetOf (SetFields documentId fs) = Some documentId"
| "targetOf (MergeFields documentId candidates) = Some documentId"
| "targetOf (SelectField documentId fieldId) = Some documentId"
| "targetOf othr = None"

section \<open>Form synthesizer (buildFillablePdf in App.tsx)\<close>

text \<open>Decimal rendering of a count, as a template literal prints it.\<close>

definition digitChar :: "nat \<Rightarrow> char" where
  "digitChar d = ''0123456789'' ! d"

fun showNat :: "nat \<Rightarrow> string" where
  "showNat n = (if n < 10 then [digitChar n] else showNat (n div 10) @ [digitChar (n mod 10)])"

declare showNat.simps [simp del]

text \<open>
  What the synthesizer asks the PDF writer for: one text field per placed Field, by
  name, page, prefilled text, rectangle in PDF content space, and the multiline flag.
\<close>

record Widget =
  w_name :: string
  w_page :: nat
  w_text :: string
  w_x :: real
  w_y :: real
  w_width :: real
  w_height :: real
  w_multiline :: bool

text \<open>\<open>document.pages[field.pageIndex]\<close>: undefined out of range.\<close>

definition pageAt :: "PageMeta list \<Rightarrow> nat \<Rightarrow> PageMeta option" where
  "pageAt pages i = (if i < length pages then Some (pages ! i) else None)"

text \<open>The display-space to content-space transform of one field.\<close>

definition toPdfRect :: "PageMeta \<Rightarrow> Field \<Rightarrow> real \<times> real \<times> real \<times> real" where
  "toPdfRect pageMeta field =
     (let scale = p_scale pageMeta;
          x = f_x field / scale;
          yFromTop = f_y field / scale;
          width = f_width field / scale;
          height = f_height field / scale;
          y = p_originalHeight pageMeta - yFromTop - height
      in (x, y, width, height))"




text \<open>
  The body of \<open>document.fields.forEach\<close>. The state of the loop is the \<open>nameUsage\<close>
  map and the widgets created so far. A field whose page is missing is skipped before
  its name is counted.
\<close>

definition placeField ::
  "PageMeta list \<Rightarrow> (string \<rightharpoonup> nat) \<times> Widget list \<Rightarrow> Field
     \<Rightarrow> (string \<rightharpoonup> nat) \<times> Widget list" where
  "placeField pages st field =
     (case st of (nameUsage, widgets) \<Rightarrow>
        (case pageAt pages (f_pageIndex field) of
           None \<Rightarrow> (nameUsage, widgets)
         | Some pageMeta \<Rightarrow>
             (case toPdfRect pageMeta field of (x, y, width, height) \<Rightarrow>
                let baseName = (if f_name field = [] then ''field'' else f_name field);
                    usageCount = orElse (nameUsage baseName) 0;
                    nameUsage' = nameUsage(baseName \<mapsto> usageCount + 1);
                    uniqueName = (if usageCount = 0 then baseName
                                  else baseName @ ''_'' @ showNat (usageCount + 1))
                in (nameUsage',
                    widgets @ [\<lparr> w_name = uniqueName, w_page = f_pageIndex field,
                                  w_text = orElse (f_placeholder field) [],
                                  w_x = x, w_y = y, w_width = width, w_height = height,
                                  w_multiline = f_multiline field \<rparr>]))))"

definition buildWidgets :: "PdfDocumentRecord \<Rightarrow> Widget list" where
  "buildWidgets document =
     snd (foldl (placeField (d_pages document)) (Map.empty, []) (d_fields document))"

text \<open>
  The PDF writer is a library: it loads the stored bytes, adds the requested text
  fields and saves, or throws. Here it is a parameter; \<open>None\<close> is the exception.
\<close>

type_synonym PdfWriter = "8 word list \<Rightarrow> Widget list \<Rightarrow> 8 word list option"

definition buildFillablePdf :: "PdfWriter \<Rightarrow> PdfDocumentRecord \<Rightarrow> 8 word list option" where
  "buildFillablePdf writer document = writer (d_documentData document) (buildWidgets document)"

section \<open>Archive serializer (utils/zip.ts)\<close>

type_synonym byte = "8 word"

text \<open>
  The bit operators of JavaScript work on the 32-bit pattern of their operands, and
  \<open>>>>\<close> shifts it logically, so these values are \<open>32 word\<close>.
\<close>

definition crcShift :: "32 word \<Rightarrow> 32 word" where
  "crcShift v = (if v AND 1 \<noteq> 0 then 0xedb88320 XOR drop_bit 1 v else drop_bit 1 v)"

definition CRC32_TABLE :: "32 word list" where
  "CRC32_TABLE = map (\<lambda>i. (crcShift ^^ 8) (of_nat i)) [0..<256]"

definition crcUpdate :: "32 word \<Rightarrow> byte \<Rightarrow> 32 word" where
  "crcUpdate crc b =
     (let lookupIndex = (crc XOR ucast b) AND 0xff
      in drop_bit 8 crc XOR CRC32_TABLE ! unat lookupIndex)"

definition computeCrc32 :: "byte list \<Rightarrow> 32 word" where
  "computeCrc32 d = foldl crcUpdate 0xffffffff d XOR 0xffffffff"

text \<open>
  The CRC-32 of the specification's words, with no table: each byte is xor-ed into the
  register, which is then shifted eight times through the reflected polynomial.
\<close>

definition crcBitwise :: "byte list \<Rightarrow> 32 word" where
  "crcBitwise d = foldl (\<lambda>crc b. (crcShift ^^ 8) (crc XOR ucast b)) 0xffffffff d XOR 0xffffffff"

text \<open>The six readings \<open>toDosDate\<close> takes from a \<open>Date\<close> (month from 0).\<close>

record DateParts =
  year :: int
  month :: int
  day :: int
  hours :: int
  minutes :: int
  seconds :: int

definition dosTimeOf :: "DateParts \<Rightarrow> 32 word" where
  "dosTimeOf date =
     push_bit 11 (word_of_int (hours date) AND 0x1f) OR
     push_bit 5 (word_of_int (minutes date) AND 0x3f) OR
     (word_of_int (seconds date div 2) AND 0x1f)"

definition dosDateOf :: "DateParts \<Rightarrow> 32 word" where
  "dosDateOf date =
     push_bit 9 (word_of_int (max 1980 (min (year date) 2107) - 1980) AND 0x7f) OR
     push_bit 5 (word_of_int (month date + 1) AND 0xf) OR
     (word_of_int (day date) AND 0x1f)"

record ZipEntry =
  z_name :: string
  z_data :: "byte list"
  z_date :: "DateParts option"

record EntryMeta =
  m_name :: string
  m_nameBytes :: "byte list"
  m_data :: "byte list"
  m_crc32 :: "32 word"
  m_dosTime :: "32 word"
  m_dosDate :: "32 word"
  m_localHeaderLength :: nat
  m_centralHeaderLength :: nat
  m_localHeaderOffset :: nat

text \<open>
  \<open>TextEncoder.encode\<close>: a \<open>string\<close> of the model is the sequence of the bytes of the
  name in UTF-8, so encoding maps each character to its byte.
\<close>

definition encode :: "string \<Rightarrow> byte list" where
  "encode s = map of_char s"

text \<open>
  \<open>files.map\<close>. An entry without a date reads the clock (\<open>new Date()\<close>); \<open>now i\<close> is
  what the clock shows at the entry of position \<open>i\<close>.
\<close>

definition entryMeta :: "(nat \<Rightarrow> DateParts) \<Rightarrow> nat \<times> ZipEntry \<Rightarrow> EntryMeta" where
  "entryMeta now p =
     (case p of (i, file) \<Rightarrow>
        let nameBytes = encode (z_name file);
            date = orElse (z_date file) (now i)
        in \<lparr> m_name = z_name file, m_nameBytes = nameBytes, m_data = z_data file,
             m_crc32 = computeCrc32 (z_data file),
             m_dosTime = dosTimeOf date, m_dosDate = dosDateOf date,
             m_localHeaderLength = 30 + length nameBytes,
             m_centralHeaderLength = 46 + length nameBytes,
             m_localHeaderOffset = 0 \<rparr>)"

text \<open>The first \<open>metadata.forEach\<close>: each entry learns where its local header starts.\<close>

fun assignOffsets :: "nat \<Rightarrow> EntryMeta list \<Rightarrow> EntryMeta list \<times> nat" where
  "assignOffsets offset [] = ([], offset)"
| "assignOffsets offset (entry # rest) =
     (case assignOffsets (offset + (m_localHeaderLength entry + length (m_data entry))) rest of
        (rest', final) \<Rightarrow> (entry \<lparr> m_localHeaderOffset := offset \<rparr> # rest', final))"

text \<open>
  The output buffer and the write pointer. A write past the end of the buffer throws a
  RangeError in \<open>DataView\<close> and in \<open>Uint8Array.set\<close>: \<open>None\<close>.
\<close>

type_synonym Writer = "byte list \<times> nat"

definition put :: "byte list \<Rightarrow> Writer \<Rightarrow> Writer option" where
  "put bs w =
     (case w of (buffer, pointer) \<Rightarrow>
        if pointer + length bs \<le> length buffer
        then Some (take pointer buffer @ bs @ drop (pointer + length bs) buffer, pointer + length bs)
        else None)"

text \<open>Little-endian bytes of \<open>value >>> 0\<close> and of \<open>value & 0xffff\<close>.\<close>

definition uint32Bytes :: "32 word \<Rightarrow> byte list" where
  "uint32Bytes v = [ucast v, ucast (drop_bit 8 v), ucast (drop_bit 16 v), ucast (drop_bit 24 v)]"

definition uint16Bytes :: "32 word \<Rightarrow> byte list" where
  "uint16Bytes v = [ucast v, ucast (drop_bit 8 v)]"

definition writeUint32 :: "32 word \<Rightarrow> Writer \<Rightarrow> Writer option" where
  "writeUint32 v = put (uint32Bytes v)"

definition writeUint16 :: "32 word \<Rightarrow> Writer \<Rightarrow> Writer option" where
  "writeUint16 v = put (uint16Bytes v)"

text \<open>A sequence of writes stops at the first one that throws.\<close>

fun writes :: "(Writer \<Rightarrow> Writer option) list \<Rightarrow> Writer \<Rightarrow> Writer option" where
  "writes [] w = Some w"
| "writes (step # steps) w = (case step w of None \<Rightarrow> None | Some w' \<Rightarrow> writes steps w')"

definition writeLocal :: "EntryMeta \<Rightarrow> Writer \<Rightarrow> Writer option" where
  "writeLocal entry =
     writes [writeUint32 0x04034b50,
             writeUint16 20,
             writeUint16 0,
             writeUint16 0,
             writeUint16 (m_dosTime entry),
             writeUint16 (m_dosDate entry),
             writeUint32 (m_crc32 entry),
             writeUint32 (of_nat (length (m_data entry))),
             writeUint32 (of_nat (length (m_data entry))),
             writeUint16 (of_nat (length (m_nameBytes entry))),
             writeUint16 0,
             put (m_nameBytes entry),
             put (m_data entry)]"

definition writeCentral :: "EntryMeta \<Rightarrow> Writer \<Rightarrow> Writer option" where
  "writeCentral entry =
     writes [writeUint32 0x02014b50,
             writeUint16 20,
             writeUint16 20,
             writeUint16 0,
             writeUint16 0,
             writeUint16 (m_dosTime entry),
             writeUint16 (m_dosDate entry),
             writeUint32 (m_crc32 entry),
             writeUint32 (of_nat (length (m_data entry))),
             writeUint32 (of_nat (length (m_data entry))),
             writeUint16 (of_nat (length (m_nameBytes entry))),
             writeUint16 0,
             writeUint16 0,
             writeUint16 0,
             writeUint16 0,
             writeUint32 0,
             writeUint32 (of_nat (m_localHeaderOffset entry)),
             put (m_nameBytes entry)]"

definition writeEnd :: "nat \<Rightarrow> nat \<Rightarrow> nat \<Rightarrow> Writer \<Rightarrow> Writer option" where
  "writeEnd count centralDirectorySize centralDirectoryOffset =
     writes [writeUint32 0x06054b50,
             writeUint16 0,
             writeUint16 0,
             writeUint16 (of_nat count),
             writeUint16 (of_nat count),
             writeUint32 (of_nat centralDirectorySize),
             writeUint32 (of_nat centralDirectoryOffset),
             writeUint16 0]"

definition createZipFromFiles :: "(nat \<Rightarrow> DateParts) \<Rightarrow> ZipEntry list \<Rightarrow> byte list option" where
  "createZipFromFiles now files =
     (case assignOffsets 0 (map (entryMeta now) (enumerate 0 files)) of
        (metadata, offset) \<Rightarrow>
          let centralDirectorySize = foldl (\<lambda>sum entry. sum + m_centralHeaderLength entry) 0 metadata;
              zipSize = offset + centralDirectorySize + 22
          in (case writes (map writeLocal metadata) (replicate zipSize 0, 0) of
                None \<Rightarrow> None
              | Some w1 \<Rightarrow>
                  let centralDirectoryOffset = snd w1
                  in (case writes (map writeCentral metadata) w1 of
                        None \<Rightarrow> None
                      | Some w2 \<Rightarrow>
                          (case writeEnd (length metadata) centralDirectorySize centralDirectoryOffset w2 of
                             None \<Rightarrow> None
                           | Some w3 \<Rightarrow> Some (fst w3)))))"

text \<open>Reading a blob back: the bytes at an offset, and little-endian numbers.\<close>

definition bytesAt :: "nat \<Rightarrow> nat \<Rightarrow> byte list \<Rightarrow> byte list" where
  "bytesAt start n blob = take n (drop start blob)"

definition readLE :: "byte list \<Rightarrow> nat" where
  "readLE bs = foldr (\<lambda>b acc. unat b + 256 * acc) bs 0"

text \<open>Where the local header and the central-directory record of entry \<open>k\<close> start.\<close>

definition localOffset :: "ZipEntry list \<Rightarrow> nat \<Rightarrow> nat" where
  "localOffset files k =
     (\<Sum>file \<leftarrow> take k files. 30 + length (encode (z_name file)) + length (z_data file))"

definition centralOffset :: "ZipEntry list \<Rightarrow> nat \<Rightarrow> nat" where
  "centralOffset files k =
     localOffset files (length files) + (\<Sum>file \<leftarrow> take k files. 46 + length (encode (z_name file)))"

text \<open>
  The bytes of one local header with its name and data, of one central-directory
  record with its name, and of the end record, in the order they are written.
\<close>

definition localBytes :: "EntryMeta \<Rightarrow> byte list" where
  "localBytes entry =
     uint32Bytes 0x04034b50 @ uint16Bytes 20 @ uint16Bytes 0 @ uint16Bytes 0 @
     uint16Bytes (m_dosTime entry) @ uint16Bytes (m_dosDate entry) @
     uint32Bytes (m_crc32 entry) @
     uint32Bytes (of_nat (length (m_data entry))) @ uint32Bytes (of_nat (length (m_data entry))) @
     uint16Bytes (of_nat (length (m_nameBytes entry))) @ uint16Bytes 0 @
     m_nameBytes entry @ m_data entry"

definition centralBytes :: "EntryMeta \<Rightarrow> byte list" where
  "centralBytes entry =
     uint32Bytes 0x02014b50 @ uint16Bytes 20 @ uint16Bytes 20 @ uint16Bytes 0 @ uint16Bytes 0 @
     uint16Bytes (m_dosTime entry) @ uint16Bytes (m_dosDate entry) @
     uint32Bytes (m_crc32 entry) @
     uint32Bytes (of_nat (length (m_data entry))) @ uint32Bytes (of_nat (length (m_data entry))) @
     uint16Bytes (of_nat (length (m_nameBytes entry))) @
     uint16Bytes 0 @ uint16Bytes 0 @ uint16Bytes 0 @ uint16Bytes 0 @
     uint32Bytes 0 @ uint32Bytes (of_nat (m_localHeaderOffset entry)) @
     m_nameBytes entry"

definition endBytes :: "nat \<Rightarrow> nat \<Rightarrow> nat \<Rightarrow> byte list" where
  "endBytes count centralDirectorySize centralDirectoryOffset =
     uint32Bytes 0x06054b50 @ uint16Bytes 0 @ uint16Bytes 0 @
     uint16Bytes (of_nat count) @ uint16Bytes (of_nat count) @
     uint32Bytes (of_nat centralDirectorySize) @ uint32Bytes (of_nat centralDirectoryOffset) @
     uint16Bytes 0"

text \<open>
  A buffer written up to the pointer: \<open>pre\<close> is what has been written, the \<open>n\<close> bytes
  after it are still zero.
\<close>

definition filled :: "byte list \<Rightarrow> nat \<Rightarrow> Writer" where
  "filled pre n = (pre @ replicate n 0, length pre)"

text \<open>The metadata of the entries with their offsets, and the sizes an entry takes.\<close>

definition metadataOf :: "(nat \<Rightarrow> DateParts) \<Rightarrow> ZipEntry list \<Rightarrow> EntryMeta list" where
  "metadataOf now files = fst (assignOffsets 0 (map (entryMeta now) (enumerate 0 files)))"

definition localSize :: "ZipEntry \<Rightarrow> nat" where
  "localSize file = 30 + length (encode (z_name file)) + length (z_data file)"

definition centralSize :: "ZipEntry \<Rightarrow> nat" where
  "centralSize file = 46 + length (encode (z_name file))"

text \<open>The entry-count fields of the end record, which is the last 22 bytes of a blob.\<close>

definition endRecord :: "byte list \<Rightarrow> byte list" where
  "endRecord blob = drop (length blob - 22) blob"

definition entriesOnDisk :: "byte list \<Rightarrow> nat" where
  "entriesOnDisk blob = readLE (bytesAt 8 2 (endRecord blob))"

definition entriesTotal :: "byte list \<Rightarrow> nat" where
  "entriesTotal blob = readLE (bytesAt 10 2 (endRecord blob))"

section \<open>Export orchestrator (handleExportCurrent and handleExportAll in App.tsx)\<close>

text \<open>What a handler leaves behind: an error message, or a download of a named file.\<close>

datatype ExportOutcome = ErrorMessage string | Download string "byte list"

text \<open>The regular expression \<open>/\.pdf$/i\<close> on the last four characters of a name.\<close>

definition isPdfSuffix :: "string \<Rightarrow> bool" where
  "isPdfSuffix t =
     (case t of
        [c0, c1, c2, c3] \<Rightarrow>
          c0 = CHR ''.'' \<and> (c1 = CHR ''p'' \<or> c1 = CHR ''P'') \<and>
          (c2 = CHR ''d'' \<or> c2 = CHR ''D'') \<and> (c3 = CHR ''f'' \<or> c3 = CHR ''F'')
      | _ \<Rightarrow> False)"

text \<open>\<open>fileName.replace(/\.pdf$/i, '') + '-fillable.pdf'\<close>\<close>

definition stripPdf :: "string \<Rightarrow> string" where
  "stripPdf fileName =
     (if isPdfSuffix (drop (length fileName - 4) fileName)
      then take (length fileName - 4) fileName else fileName)"

definition fillableName :: "string \<Rightarrow> string" where
  "fillableName fileName = stripPdf fileName @ ''-fillable.pdf''"

definition activeDocument :: "PdfState \<Rightarrow> PdfDocumentRecord option" where
  "activeDocument state =
     (case activeDocumentId state of
        None \<Rightarrow> None
      | Some i \<Rightarrow> find (\<lambda>document. d_id document = i) (documents state))"

definition handleExportCurrent :: "PdfWriter \<Rightarrow> PdfState \<Rightarrow> ExportOutcome" where
  "handleExportCurrent writer state =
     (case activeDocument state of
        None \<Rightarrow> ErrorMessage ''Nothing to export yet. Add fields first.''
      | Some document \<Rightarrow>
          if d_fields document = [] then ErrorMessage ''Nothing to export yet. Add fields first.''
          else (case buildFillablePdf writer document of
                  None \<Rightarrow> ErrorMessage ''Export failed. Try again or refresh the page.''
                | Some bytes \<Rightarrow> Download (fillableName (d_fileName document)) bytes))"

text \<open>The loop over the snapshot; \<open>None\<close> when synthesizing a document throws.\<close>

fun collectFiles :: "PdfWriter \<Rightarrow> PdfDocumentRecord list \<Rightarrow> ZipEntry list option" where
  "collectFiles writer [] = Some []"
| "collectFiles writer (document # rest) =
     (if d_fields document = [] then collectFiles writer rest
      else (case buildFillablePdf writer document of
              None \<Rightarrow> None
            | Some bytes \<Rightarrow>
                (case collectFiles writer rest of
                   None \<Rightarrow> None
                 | Some files \<Rightarrow>
                     Some (\<lparr> z_name = fillableName (d_fileName document), z_data = bytes,
                              z_date = None \<rparr> # files))))"

definition handleExportAll :: "PdfWriter \<Rightarrow> (nat \<Rightarrow> DateParts) \<Rightarrow> PdfState \<Rightarrow> ExportOutcome" where
  "handleExportAll writer now state =
     (let snapshot = documents state
      in if snapshot = [] then ErrorMessage ''No documents to export.''
         else (case collectFiles writer snapshot of
                 None \<Rightarrow> ErrorMessage ''Failed to export all documents.''
               | Some files \<Rightarrow>
                   if files = [] then ErrorMessage ''No fields found to export. Add fields before exporting.''
                   else (case createZipFromFiles now files of
                           None \<Rightarrow> ErrorMessage ''Failed to export all documents.''
                         | Some zipBlob \<Rightarrow> Download ''fillable-pdfs.zip'' zipBlob)))"

section \<open>Text-run detector (utils/detection.ts)\<close>

definition MIN_UNDERSCORE_RUN :: nat where
  "MIN_UNDERSCORE_RUN = 8"

definition MIN_FIELD_WIDTH :: real where
  "MIN_FIELD_WIDTH = 20"

definition MIN_FIELD_HEIGHT :: real where
  "MIN_FIELD_HEIGHT = 14"

definition FIELD_VERTICAL_OFFSET :: real where
  "FIELD_VERTICAL_OFFSET = - 2"

record GlyphSegment =
  s_start :: nat
  s_end :: nat
  s_width :: real

record GlyphMetrics =
  gm_totalUnits :: real
  gm_segments :: "GlyphSegment list"

text \<open>
  A glyph as the font object of the PDF reader returns it: \<open>unicode\<close> when it is a
  string, \<open>width\<close> when it is a finite number.
\<close>

record Glyph =
  g_unicode :: "string option"
  g_width :: "real option"

type_synonym Rect = "real \<times> real \<times> real \<times> real"

record Transform =
  tr0 :: real
  tr1 :: real
  tr2 :: real
  tr3 :: real
  tr4 :: real
  tr5 :: real

text \<open>A text item; \<open>t_width\<close> is \<open>None\<close> when \<open>item.width\<close> is not a finite number.\<close>

record TextItem =
  t_str :: string
  t_dir :: string
  t_width :: "real option"
  t_transform :: Transform
  t_fontName :: string

datatype TextContentItem = Text TextItem | MarkedContent

text \<open>
  A page of the PDF reader, as far as the detector uses it: the items of
  \<open>getTextContent\<close>, \<open>convertToViewportRectangle\<close> of the viewport at a scale, and
  the glyphs a font gives for a string (\<open>None\<close> when the font or its glyph mapping is
  not available; a glyph of the array may be missing).
\<close>

record Page =
  pg_items :: "TextContentItem list"
  pg_viewport :: "real \<Rightarrow> Rect \<Rightarrow> Rect"
  pg_glyphs :: "string \<Rightarrow> string \<Rightarrow> Glyph option list option"

text \<open>The loop of \<open>buildGlyphMetrics\<close> over the glyphs, with its cursor and running total.\<close>

fun glyphLoop :: "nat \<Rightarrow> real \<Rightarrow> Glyph option list \<Rightarrow> GlyphSegment list \<times> real" where
  "glyphLoop cursor totalUnits [] = ([], totalUnits)"
| "glyphLoop cursor totalUnits (None # rest) = glyphLoop cursor totalUnits rest"
| "glyphLoop cursor totalUnits (Some glyph # rest) =
     (let unicode = orElse (g_unicode glyph) [];
          span = (if length unicode > 0 then length unicode else 1);
          width = orElse (g_width glyph) 0
      in (case glyphLoop (cursor + span) (totalUnits + width) rest of
            (segments, units) \<Rightarrow>
              (\<lparr> s_start = cursor, s_end = cursor + span, s_width = width \<rparr> # segments, units)))"

definition buildGlyphMetrics :: "Page \<Rightarrow> TextItem \<Rightarrow> GlyphMetrics option" where
  "buildGlyphMetrics page item =
     (case pg_glyphs page (t_fontName item) (t_str item) of
        None \<Rightarrow> None
      | Some glyphs \<Rightarrow>
          if glyphs = [] then None
          else (case glyphLoop 0 0 glyphs of
                  (segments, totalUnits) \<Rightarrow>
                    if totalUnits = 0 then None
                    else Some \<lparr> gm_totalUnits = totalUnits, gm_segments = segments \<rparr>))"

text \<open>The loop of \<open>measureRunUsingGlyphs\<close>; the second branch is its \<open>break\<close>.\<close>

fun measureLoop :: "nat \<Rightarrow> nat \<Rightarrow> GlyphSegment list \<Rightarrow> real \<times> real \<Rightarrow> real \<times> real" where
  "measureLoop runStart runEnd [] acc = acc"
| "measureLoop runStart runEnd (segment # rest) acc =
     (case acc of (prefixUnits, runUnits) \<Rightarrow>
        if s_end segment \<le> runStart
        then measureLoop runStart runEnd rest (prefixUnits + s_width segment, runUnits)
        else if s_start segment \<ge> runEnd then (prefixUnits, runUnits)
        else
          let segmentSpan = max (real_of_int (int (s_end segment) - int (s_start segment))) 1;
              prefixUnits' =
                (if s_start segment < runStart
                 then prefixUnits +
                      s_width segment * (real_of_int (int runStart - int (s_start segment)) / segmentSpan)
                 else prefixUnits);
              overlapStart = max (s_start segment) runStart;
              overlapEnd = min (s_end segment) runEnd;
              overlapLength = max (int overlapEnd - int overlapStart) 0;
              runUnits' =
                (if overlapLength > 0
                 then runUnits + (s_width segment * real_of_int overlapLength) / segmentSpan
                 else runUnits)
          in measureLoop runStart runEnd rest (prefixUnits', runUnits'))"

definition measureRunUsingGlyphs :: "GlyphMetrics \<Rightarrow> nat \<Rightarrow> nat \<Rightarrow> real \<times> real" where
  "measureRunUsingGlyphs metrics runStart runLength =
     measureLoop runStart (runStart + runLength) (gm_segments metrics) (0, 0)"

definition clampSize :: "real \<Rightarrow> real \<Rightarrow> real \<Rightarrow> real" where
  "clampSize v mn available =
     (let safeAvailable = (if available > 0 then available else mn);
          lowerBound = min mn safeAvailable;
          expanded = max v lowerBound
      in min expanded safeAvailable)"

text \<open>
  \<open>str.matchAll(/(_{3,})/g)\<close>: the matches, each with its index and its length, from
  left to right. The pattern is greedy, so a match is a whole run of underscores, and a
  run of one or two gives no match.
\<close>

function matchRuns :: "nat \<Rightarrow> string \<Rightarrow> (nat \<times> nat) list" where
  "matchRuns i [] = []"
| "matchRuns i (c # cs) =
     (if c = CHR ''_''
      then (let n = Suc (length (takeWhile (\<lambda>d. d = CHR ''_'') cs))
            in (if 3 \<le> n then [(i, n)] else []) @
               matchRuns (i + n) (dropWhile (\<lambda>d. d = CHR ''_'') cs))
      else matchRuns (Suc i) cs)"
  by pat_completeness auto
termination
  by (relation "measure (\<lambda>(i, s). length s)") (auto simp: less_Suc_eq_le length_dropWhile_le)

text \<open>
  From the rectangle the viewport returns to the rectangle of the field: the clamping
  at the end of the loop body of \<open>detectFieldsForPage\<close>.
\<close>

definition fieldGeometry :: "PageMeta \<Rightarrow> real \<Rightarrow> Rect \<Rightarrow> Rect" where
  "fieldGeometry pageMeta fontHeight rect =
     (case rect of (x1, y1, x2, y2) \<Rightarrow>
        let x = min x1 x2;
            rawWidth = \<bar>x2 - x1\<bar>;
            rawHeight = (if \<bar>y2 - y1\<bar> \<noteq> 0 then \<bar>y2 - y1\<bar> else fontHeight * p_scale pageMeta * 0.4);
            minWidthTarget = max MIN_FIELD_WIDTH (if rawWidth \<noteq> 0 then rawWidth else MIN_FIELD_WIDTH);
            width = clampSize rawWidth MIN_FIELD_WIDTH (p_width pageMeta - x);
            width = (if width < minWidthTarget then min minWidthTarget (p_width pageMeta - x) else width);
            heightCandidate = clampSize rawHeight MIN_FIELD_HEIGHT (p_height pageMeta);
            height = min heightCandidate (MIN_FIELD_HEIGHT + 16);
            centerY = (y1 + y2) / 2;
            y = centerY - height;
            y = (if y < 0 then 0 else y);
            y = (if y + height > p_height pageMeta then max (p_height pageMeta - height) 0 else y);
            y = (if FIELD_VERTICAL_OFFSET \<noteq> 0
                 then (let shiftedY = y + FIELD_VERTICAL_OFFSET;
                           maxY = max (p_height pageMeta - height) 0
                       in min (max shiftedY 0) maxY)
                 else y);
            x = max x 0;
            width = (if x + width > p_width pageMeta then max (p_width pageMeta - x) 1 else width)
        in (x, y, width, height))"

text \<open>
  The measured start offset and width of a run, in content space: by the glyph table
  when it is there and gives a positive scale and run, by the uniform estimate
  otherwise.
\<close>

definition measureRun :: "GlyphMetrics option \<Rightarrow> real \<Rightarrow> real \<Rightarrow> nat \<Rightarrow> nat \<Rightarrow> real \<times> real" where
  "measureRun glyphMetrics itemWidth charWidth startOffset runLength =
     (let measuredWidth = charWidth * real runLength;
          measuredStartOffset = charWidth * real startOffset
      in (case glyphMetrics of
            None \<Rightarrow> (measuredStartOffset, measuredWidth)
          | Some metrics \<Rightarrow>
              (case measureRunUsingGlyphs metrics startOffset runLength of
                 (prefixUnits, runUnits) \<Rightarrow>
                   let scale = (if gm_totalUnits metrics \<noteq> 0 then itemWidth / gm_totalUnits metrics else 0)
                   in if scale > 0 \<and> runUnits > 0 then (prefixUnits * scale, runUnits * scale)
                      else (measuredStartOffset, measuredWidth))))"

definition fieldName :: "nat \<Rightarrow> nat \<Rightarrow> string" where
  "fieldName pageIndex k = ''page'' @ showNat (pageIndex + 1) @ ''_field_'' @ showNat k"

text \<open>
  The body of the loop over the matches of one item. The state is the list of the
  fields detected so far and \<open>pageFieldCount\<close>. \<open>makeId\<close> draws a random id: \<open>ids k\<close>
  is the id drawn for the field after \<open>k\<close> earlier ones.
\<close>

definition detectMatch ::
  "(nat \<Rightarrow> string) \<Rightarrow> (Rect \<Rightarrow> Rect) \<Rightarrow> PageMeta \<Rightarrow> TextItem \<Rightarrow> GlyphMetrics option
     \<Rightarrow> Field list \<times> nat \<Rightarrow> nat \<times> nat \<Rightarrow> Field list \<times> nat" where
  "detectMatch ids convert pageMeta item glyphMetrics st m =
     (case st of (detected, pageFieldCount) \<Rightarrow>
      case m of (startOffset, runLength) \<Rightarrow>
        if runLength < MIN_UNDERSCORE_RUN then st
        else
          let glyphCount = (if length (t_str item) \<noteq> 0 then length (t_str item) else 1);
              itemWidth = orElse (t_width item) 0;
              charWidth = (if glyphCount > 0 then itemWidth / real glyphCount else 0);
              baseX = tr4 (t_transform item);
              baseY = tr5 (t_transform item);
              root = sqrt ((tr2 (t_transform item))\<^sup>2 + (tr3 (t_transform item))\<^sup>2);
              fontHeight = (if root \<noteq> 0 then root else 10)
          in (case measureRun glyphMetrics itemWidth charWidth startOffset runLength of
                (measuredStartOffset, measuredWidth) \<Rightarrow>
                  let sourceX = (if t_dir item = ''rtl''
                                 then baseX - (measuredStartOffset + measuredWidth)
                                 else baseX + measuredStartOffset);
                      fallbackWidth = (if charWidth > 0 then charWidth * real runLength else itemWidth);
                      lineWidth = (if measuredWidth > 0 then measuredWidth else fallbackWidth)
                  in if \<not> lineWidth > 0 then st
                     else
                       (case fieldGeometry pageMeta fontHeight
                               (convert (sourceX, baseY - fontHeight * 0.6,
                                         sourceX + lineWidth, baseY + fontHeight * 0.2)) of
                          (x, y, width, height) \<Rightarrow>
                            (detected @
                               [\<lparr> f_id = ids pageFieldCount, f_pageIndex = p_index pageMeta,
                                   f_x = x, f_y = y, f_width = width, f_height = height,
                                   f_multiline = False, f_confidence = Some 0.6,
                                   f_name = fieldName (p_index pageMeta) (pageFieldCount + 1),
                                   f_placeholder = None \<rparr>],
                             pageFieldCount + 1))))"

text \<open>The body of the loop over the text items.\<close>

definition detectItem ::
  "(nat \<Rightarrow> string) \<Rightarrow> Page \<Rightarrow> PageMeta \<Rightarrow> Field list \<times> nat \<Rightarrow> TextContentItem
     \<Rightarrow> Field list \<times> nat" where
  "detectItem ids page pageMeta st entry =
     (case entry of
        MarkedContent \<Rightarrow> st
      | Text item \<Rightarrow>
          if CHR ''_'' \<notin> set (t_str item) then st
          else (let matches = matchRuns 0 (t_str item)
                in if matches = [] then st
                   else foldl (detectMatch ids (pg_viewport page (p_scale pageMeta)) pageMeta item
                                 (buildGlyphMetrics page item))
                          st matches))"

definition detectFieldsForPage :: "(nat \<Rightarrow> string) \<Rightarrow> Page \<Rightarrow> PageMeta \<Rightarrow> Field list" where
  "detectFieldsForPage ids page pageMeta =
     fst (foldl (detectItem ids page pageMeta) ([], 0) (pg_items page))"

text \<open>
  \<open>detectFields\<close>: \<open>pdfDoc\<close> gives the page of a 1-based number, or throws (\<open>None\<close>),
  which ends the detection of the document.
\<close>

fun detectFields :: "(nat \<Rightarrow> string) \<Rightarrow> (nat \<Rightarrow> Page option) \<Rightarrow> PageMeta list \<Rightarrow> Field list option" where
  "detectFields ids pdfDoc [] = Some []"
| "detectFields ids pdfDoc (meta # rest) =
     (case pdfDoc (p_index meta + 1) of
        None \<Rightarrow> None
      | Some page \<Rightarrow>
          (let pageFields = detectFieldsForPage ids page meta
           in (case detectFields (\<lambda>k. ids (length pageFields + k)) pdfDoc rest of
                 None \<Rightarrow> None
               | Some later \<Rightarrow> Some (pageFields @ later))))"

text \<open>
  The viewport of an unrotated page whose box starts at the origin, of display height
  \<open>h\<close>: a point \<open>(x, y)\<close> of content space goes to \<open>(scale * x, h - scale * y)\<close>.
\<close>

definition plainViewport :: "real \<Rightarrow> real \<Rightarrow> Rect \<Rightarrow> Rect" where
  "plainViewport h scale rect =
     (case rect of (x1, y1, x2, y2) \<Rightarrow> (scale * x1, h - scale * y1, scale * x2, h - scale * y2))"

text \<open>
  What holds of the rectangle of a detected field on its page: it starts inside the
  page, stays above the bottom edge, is at least \<open>MIN_FIELD_HEIGHT\<close> high where the page
  allows it and at most 16 more, and where the page leaves \<open>MIN_FIELD_WIDTH\<close> to the
  right of its left edge it is at least that wide and ends inside the page.
\<close>

definition detectedWithin :: "PageMeta \<Rightarrow> Field \<Rightarrow> bool" where
  "detectedWithin pageMeta field \<longleftrightarrow>
     0 \<le> f_x field \<and> 0 \<le> f_y field \<and>
     f_y field + f_height field \<le> p_height pageMeta \<and>
     min 14 (p_height pageMeta) \<le> f_height field \<and> f_height field \<le> 30 \<and>
     f_confidence field = Some 0.6 \<and>
     (f_x field + 20 \<le> p_width pageMeta \<longrightarrow>
        20 \<le> f_width field \<and> f_x field + f_width field \<le> p_width pageMeta)"

text \<open>The text items of a page, a run of \<open>n\<close> underscores, and the runs long enough.\<close>

definition textItems :: "Page \<Rightarrow> TextItem list" where
  "textItems page =
     concat (map (\<lambda>entry. case entry of Text item \<Rightarrow> [item] | MarkedContent \<Rightarrow> []) (pg_items page))"

definition underscores :: "nat \<Rightarrow> string" where
  "underscores n = replicate n (CHR ''_'')"

definition longRuns :: "string \<Rightarrow> (nat \<times> nat) list" where
  "longRuns s = filter (\<lambda>m. MIN_UNDERSCORE_RUN \<le> snd m) (matchRuns 0 s)"

text \<open>
  Two invariants of the loops of \<open>detectFieldsForPage\<close>, on the fields so far and
  their count: the names and ids run with the count, and every field lies on the page.
\<close>

definition namesInvariant :: "(nat \<Rightarrow> string) \<Rightarrow> PageMeta \<Rightarrow> Field list \<times> nat \<Rightarrow> bool" where
  "namesInvariant ids pageMeta st \<longleftrightarrow>
     snd st = length (fst st) \<and>
     map f_name (fst st) = map (fieldName (p_index pageMeta)) [1..<Suc (length (fst st))] \<and>
     map f_id (fst st) = map ids [0..<length (fst st)]"

definition boundsInvariant :: "PageMeta \<Rightarrow> Field list \<times> nat \<Rightarrow> bool" where
  "boundsInvariant pageMeta st \<longleftrightarrow>
     (\<forall>field \<in> set (fst st). detectedWithin pageMeta field \<and> f_pageIndex field = p_index pageMeta)"

section \<open>Concrete inputs\<close>

definition examplePage :: PageMeta where
  "examplePage = \<lparr> p_index = 0, p_width = 765, p_height = 990, p_originalWidth = 612,
                    p_originalHeight = 792, p_scale = 1.25 \<rparr>"

definition manualField :: Field where
  "manualField = \<lparr> f_id = ''f1'', f_pageIndex = 0, f_x = 100, f_y = 100, f_width = 150,
                    f_height = 24, f_multiline = False, f_confidence = None,
                    f_name = ''page1_manual_1'', f_placeholder = None \<rparr>"

definition detectedField :: Field where
  "detectedField = \<lparr> f_id = ''f2'', f_pageIndex = 0, f_x = 105, f_y = 103, f_width = 150,
                      f_height = 24, f_multiline = False, f_confidence = Some 0.6,
                      f_name = ''page1_field_1'', f_placeholder = None \<rparr>"

definition exampleDocument :: PdfDocumentRecord where
  "exampleDocument = \<lparr> d_id = ''doc1'', d_fileName = ''form.pdf'', d_pdfDoc = 0,
                        d_documentData = [], d_pages = [examplePage], d_fields = [],
                        d_selectedFieldId = None \<rparr>"

definition otherDocument :: PdfDocumentRecord where
  "otherDocument = \<lparr> d_id = ''doc2'', d_fileName = ''Letter.PDF'', d_pdfDoc = 1,
                      d_documentData = [], d_pages = [examplePage], d_fields = [],
                      d_selectedFieldId = None \<rparr>"

definition fixedDate :: DateParts where
  "fixedDate = \<lparr> year = 2024, month = 0, day = 15, hours = 10, minutes = 30, seconds = 20 \<rparr>"

definition laterDate :: DateParts where
  "laterDate = \<lparr> year = 2025, month = 5, day = 1, hours = 23, minutes = 59, seconds = 58 \<rparr>"

definition smallEntry :: ZipEntry where
  "smallEntry = \<lparr> z_name = ''a.pdf'', z_data = [1, 2, 3], z_date = Some fixedDate \<rparr>"

definition fixedClock :: "nat \<Rightarrow> DateParts" where
  "fixedClock i = fixedDate"

definition laterClock :: "nat \<Rightarrow> DateParts" where
  "laterClock i = laterDate"

text \<open>Three fields whose names a user has set to \<open>name\<close>, \<open>name\<close> and \<open>name_2\<close>.\<close>

definition collidingDocument :: PdfDocumentRecord where
  "collidingDocument =
     exampleDocument \<lparr> d_fields :=
       [manualField \<lparr> f_id := ''f1'', f_name := ''name'' \<rparr>,
        manualField \<lparr> f_id := ''f2'', f_y := 200, f_name := ''name'' \<rparr>,
        manualField \<lparr> f_id := ''f3'', f_y := 300, f_name := ''name_2'' \<rparr>] \<rparr>"

text \<open>A writer that always succeeds, and one that always throws.\<close>

definition echoWriter :: PdfWriter where
  "echoWriter bytes widgets = Some (bytes @ [of_nat (length widgets)])"

definition failingWriter :: PdfWriter where
  "failingWriter bytes widgets = None"

definition filledDocument :: PdfDocumentRecord where
  "filledDocument = otherDocument \<lparr> d_fields := [manualField] \<rparr>"

text \<open>
  A line with a blank of ten underscores and one of four, set in a 10-unit font at
  (80, 700) of a 612 by 792 page shown at scale 1.25; the same line with no width; and
  a narrow line that starts beyond the right edge of the page.
\<close>

definition nameItem :: TextItem where
  "nameItem = \<lparr> t_str = ''Name: __________ Date: ____'', t_dir = ''ltr'', t_width = Some 135,
                 t_transform = \<lparr> tr0 = 10, tr1 = 0, tr2 = 0, tr3 = 10, tr4 = 80, tr5 = 700 \<rparr>,
                 t_fontName = ''g_d0_f1'' \<rparr>"

definition noGlyphs :: "string \<Rightarrow> string \<Rightarrow> Glyph option list option" where
  "noGlyphs fontName s = None"

definition namePage :: Page where
  "namePage = \<lparr> pg_items = [MarkedContent, Text nameItem], pg_viewport = plainViewport 990,
                 pg_glyphs = noGlyphs \<rparr>"

definition flatItem :: TextItem where
  "flatItem = nameItem \<lparr> t_width := Some 0 \<rparr>"

definition flatPage :: Page where
  "flatPage = \<lparr> pg_items = [Text flatItem], pg_viewport = plainViewport 990,
                 pg_glyphs = noGlyphs \<rparr>"

definition marginItem :: TextItem where
  "marginItem =
     nameItem \<lparr> t_width := Some 40.5,
                t_transform := \<lparr> tr0 = 10, tr1 = 0, tr2 = 0, tr3 = 10, tr4 = 620, tr5 = 700 \<rparr> \<rparr>"

definition marginPage :: Page where
  "marginPage = \<lparr> pg_items = [Text marginItem], pg_viewport = plainViewport 990,
                   pg_glyphs = noGlyphs \<rparr>"

text \<open>What the detector makes of the first blank of \<open>marginPage\<close>.\<close>

definition marginField :: Field where
  "marginField = \<lparr> f_id = ''id0'', f_pageIndex = 0, f_x = 786.25, f_y = 101.5, f_width = 1,
                    f_height = 14, f_multiline = False, f_confidence = Some 0.6,
                    f_name = ''page1_field_1'', f_placeholder = None \<rparr>"

definition exampleIds :: "nat \<Rightarrow> string" where
  "exampleIds k = ''id'' @ showNat k"

definition examplePdf :: "nat \<Rightarrow> Page option" where
  "examplePdf n = (if n = 1 then Some namePage else None)"

text \<open>The field the detector makes of the blank of ten underscores on \<open>namePage\<close>.\<close>

definition nameField :: Field where
  "nameField = \<lparr> f_id = ''id0'', f_pageIndex = 0, f_x = 137.5, f_y = 101.5, f_width = 62.5,
                  f_height = 14, f_multiline = False, f_confidence = Some 0.6,
                  f_name = ''page1_field_1'', f_placeholder = None \<rparr>"

section \<open>Verified properties\<close>

subsection \<open>The store\<close>

lemma updateDocument_ids: "map d_id (updateDocument docs i (\<lambda>d. g d)) = map d_id docs"
  if "\<And>d. d_id (g d) = d_id d"
  using that by (induction docs) (auto simp: updateDocument_def)

lemma updateDocument_absent:
  "i \<notin> d_id ` set docs \<Longrightarrow> updateDocument docs i g = docs"
  by (induction docs) (auto simp: updateDocument_def)

lemma updateDocument_other:
  "k < length docs \<Longrightarrow> d_id (docs ! k) \<noteq> i \<Longrightarrow> updateDocument docs i g ! k = docs ! k"
  by (simp add: updateDocument_def)

lemma updateDocument_length: "length (updateDocument docs i g) = length docs"
  by (simp add: updateDocument_def)

lemma applyOp_target_documents:
  assumes "targetOf op = Some documentId"
  shows "\<exists>g. (\<forall>d. d_id (g d) = d_id d) \<and>
             applyOp state op = state \<lparr> documents := updateDocument (documents state) documentId g \<rparr>"
proof (cases op)
  case (AddField i f)
  with assms show ?thesis
    by (intro exI [of _ "\<lambda>document. document \<lparr> d_fields := d_fields document @ [f], d_selectedFieldId := Some (f_id f) \<rparr>"])
       (simp add: addField_def)
next
  case (UpdateField i fid u)
  with assms show ?thesis
    by (intro exI [of _ "\<lambda>document. document \<lparr> d_fields :=
          map (\<lambda>field. if f_id field = fid then applyPatch field u else field) (d_fields document) \<rparr>"])
       (simp add: updateField_def)
next
  case (RemoveField i fid)
  with assms show ?thesis
    by (intro exI [of _ "\<lambda>document. document \<lparr> d_fields := filter (\<lambda>field. f_id field \<noteq> fid) (d_fields document),
                               d_selectedFieldId :=
                                 (if d_selectedFieldId document = Some fid then None
                                  else d_selectedFieldId document) \<rparr>"])
       (simp add: removeField_def)
next
  case (SetFields i fs)
  with assms show ?thesis
    by (intro exI [of _ "\<lambda>document. document \<lparr> d_fields := fs, d_selectedFieldId := lastId fs \<rparr>"])
       (simp add: setFields_def)
next
  case (MergeFields i cs)
  with assms show ?thesis
    by (intro exI [of _ "\<lambda>document. let combined = mergeCombined (d_fields document) cs
          in document \<lparr> d_fields := combined, d_selectedFieldId := lastId combined \<rparr>"])
       (simp add: mergeFields_def Let_def)
next
  case (SelectField i fid)
  with assms show ?thesis
    by (intro exI [of _ "\<lambda>document. document \<lparr> d_selectedFieldId := fid \<rparr>"])
       (simp add: selectField_def)
qed (use assms in simp_all)

text \<open>
  Claim C10. A mutation that targets a document id keeps the length of the documents
  list and the order of the ids, leaves every document with another id as it was,
  leaves the active document id alone, and changes nothing at all when no document has
  the targeted id.
\<close>

theorem store_frame:
  assumes "targetOf op = Some documentId"
  shows "length (documents (applyOp state op)) = length (documents state) \<and>
         map d_id (documents (applyOp state op)) = map d_id (documents state) \<and>
         (\<forall>k < length (documents state).
            d_id (documents state ! k) \<noteq> documentId \<longrightarrow>
            documents (applyOp state op) ! k = documents state ! k) \<and>
         activeDocumentId (applyOp state op) = activeDocumentId state \<and>
         (documentId \<notin> d_id ` set (documents state) \<longrightarrow> applyOp state op = state)"
proof -
  from applyOp_target_documents [OF assms, of state] obtain g where
    g: "\<And>d. d_id (g d) = d_id d" and
    eq: "applyOp state op = state \<lparr> documents := updateDocument (documents state) documentId g \<rparr>"
    by blast
  show ?thesis
    unfolding eq
    by (simp add: updateDocument_length updateDocument_ids g updateDocument_other updateDocument_absent)
qed











lemma lastId_valid: "lastId fs = Some i \<Longrightarrow> list_ex (\<lambda>field. f_id field = i) fs"
  by (auto simp: lastId_def list_ex_iff split: if_splits)

lemma list_all_updateDocument:
  "list_all P docs \<Longrightarrow> (\<And>d. d \<in> set docs \<Longrightarrow> d_id d = i \<Longrightarrow> P d \<Longrightarrow> P (g d)) \<Longrightarrow> list_all P (updateDocument docs i g)"
  by (auto simp: updateDocument_def list_all_iff)

lemma applyPatch_keeps_id: "u_id u = None \<Longrightarrow> f_id (applyPatch f u) = f_id f"
  by (simp add: applyPatch_def orElse_def)

lemma list_ex_patch:
  "u_id u = None \<Longrightarrow>
   list_ex (\<lambda>field. f_id field = j)
     (map (\<lambda>field. if f_id field = fid then applyPatch field u else field) fs) =
   list_ex (\<lambda>field. f_id field = j) fs"
  by (induction fs) (auto simp: applyPatch_keeps_id)

lemma applyOp_selectionValid:
  assumes "storeSelectionValid state" "selectionSafe state op"
  shows "storeSelectionValid (applyOp state op)"
proof (cases op)
  case (AddDocument entry)
  with assms show ?thesis by (simp add: storeSelectionValid_def addDocument_def)
next
  case (RemoveDocument i)
  with assms show ?thesis by (simp add: storeSelectionValid_def removeDocument_def Let_def list_all_iff)
next
  case ClearAll
  then show ?thesis by (simp add: storeSelectionValid_def clearAll_def)
next
  case (SetActiveDocument i)
  with assms show ?thesis by (simp add: storeSelectionValid_def setActiveDocument_def)
next
  case (AddField i f)
  with assms show ?thesis
    by (auto simp: storeSelectionValid_def addField_def selectionValid_def intro!: list_all_updateDocument)
next
  case (UpdateField i fid u)
  with assms have u: "u_id u = None" by simp
  have "selectionValid (d \<lparr> d_fields := map (\<lambda>field. if f_id field = fid then applyPatch field u else field) (d_fields d) \<rparr>)"
    if "selectionValid d" for d
    using that by (simp add: selectionValid_def list_ex_patch [OF u] split: option.splits)
  with assms UpdateField show ?thesis
    by (auto simp: storeSelectionValid_def updateField_def intro!: list_all_updateDocument)
next
  case (RemoveField i fid)
  with assms show ?thesis
    by (auto simp: storeSelectionValid_def removeField_def selectionValid_def list_ex_iff
             split: option.splits intro!: list_all_updateDocument)
next
  case (SetFields i fs)
  with assms show ?thesis
    by (auto simp: storeSelectionValid_def setFields_def selectionValid_def lastId_valid
             split: option.splits intro!: list_all_updateDocument)
next
  case (MergeFields i cs)
  with assms show ?thesis
    by (auto simp: storeSelectionValid_def mergeFields_def selectionValid_def lastId_valid Let_def
             split: option.splits intro!: list_all_updateDocument)
next
  case (SelectField i fid)
  with assms show ?thesis
    by (auto simp: storeSelectionValid_def selectField_def selectionValid_def list_all_iff
             updateDocument_def split: option.splits if_splits)
qed

lemma runSafeOps_valid:
  "storeSelectionValid state \<Longrightarrow> runSafeOps state ops = Some state' \<Longrightarrow>
   state' = foldl applyOp state ops \<and> storeSelectionValid state'"
proof (induction ops arbitrary: state)
  case Nil
  then show ?case by simp
next
  case (Cons op ops)
  from Cons.prems have safe: "selectionSafe state op"
    and run: "runSafeOps (applyOp state op) ops = Some state'"
    by (simp_all split: if_splits)
  from Cons.IH [OF applyOp_selectionValid [OF Cons.prems(1) safe] run]
  show ?case by auto
qed

text \<open>
  Claim C8, amended. From the empty store, any sequence of operations whose arguments
  are safe for the selection (a document is added with a valid selection, a patch does
  not change the id of a field, a field is selected only where it exists) leads to a
  store in which every document's \<open>selectedFieldId\<close> is absent or the id of one of
  its fields.
\<close>

theorem selection_invariant:
  "runSafeOps initialState ops = Some state \<Longrightarrow> state = runOps ops \<and> storeSelectionValid state"
  unfolding runOps_def
  by (rule runSafeOps_valid) (simp_all add: storeSelectionValid_def initialState_def)

lemmas store_defs = runOps_def initialState_def addDocument_def removeDocument_def clearAll_def
  setActiveDocument_def addField_def updateField_def removeField_def setFields_def mergeFields_def
  selectField_def updateDocument_def exampleDocument_def otherDocument_def manualField_def
  detectedField_def examplePage_def lastId_def mergeCombined_def mergeStep_def nearDuplicate_def
  selectionValid_def storeSelectionValid_def

text \<open>The frame property at work on a store of two documents.\<close>

theorem store_frame_witness:
  "targetOf (AddField ''doc1'' manualField) = Some ''doc1'' \<and>
   documents (applyOp (runOps [AddDocument exampleDocument, AddDocument otherDocument])
                (AddField ''doc1'' manualField)) ! 1 = otherDocument \<and>
   applyOp (runOps [AddDocument exampleDocument]) (AddField ''doc2'' manualField)
     = runOps [AddDocument exampleDocument]"
proof -
  have h: "targetOf (AddField ''doc1'' manualField) = Some ''doc1''" by simp
  have h2: "targetOf (AddField ''doc2'' manualField) = Some ''doc2''" by simp
  have ido: "d_id otherDocument = ''doc2''" by (simp add: otherDocument_def)
  have ide: "d_id exampleDocument = ''doc1''" by (simp add: exampleDocument_def)
  have a: "documents (runOps [AddDocument exampleDocument, AddDocument otherDocument])
             = [exampleDocument, otherDocument]"
    by (simp add: runOps_def initialState_def addDocument_def)
  have b: "documents (runOps [AddDocument exampleDocument]) = [exampleDocument]"
    by (simp add: runOps_def initialState_def addDocument_def)
  from store_frame [OF h, of "runOps [AddDocument exampleDocument, AddDocument otherDocument]"]
  have "\<forall>k < length (documents (runOps [AddDocument exampleDocument, AddDocument otherDocument])).
          d_id (documents (runOps [AddDocument exampleDocument, AddDocument otherDocument]) ! k) \<noteq> ''doc1'' \<longrightarrow>
          documents (applyOp (runOps [AddDocument exampleDocument, AddDocument otherDocument])
                (AddField ''doc1'' manualField)) ! k
          = documents (runOps [AddDocument exampleDocument, AddDocument otherDocument]) ! k"
    by blast
  from this [rule_format, of 1]
  have "documents (applyOp (runOps [AddDocument exampleDocument, AddDocument otherDocument])
                (AddField ''doc1'' manualField)) ! 1 = otherDocument"
    by (simp add: a ido)
  moreover from store_frame [OF h2, of "runOps [AddDocument exampleDocument]"]
  have "applyOp (runOps [AddDocument exampleDocument]) (AddField ''doc2'' manualField)
     = runOps [AddDocument exampleDocument]"
    by (simp add: b ide)
  ultimately show ?thesis using h by simp
qed


text \<open>
  Claim C8 as it is stated fails: \<open>selectField\<close> stores whatever id it is given.
\<close>

theorem selection_invariant_counterexample:
  "\<not> storeSelectionValid (runOps [AddDocument exampleDocument, SelectField ''doc1'' (Some ''ghost'')])"
  by (simp add: store_defs)

text \<open>A safe run that adds, merges, selects and removes.\<close>

theorem selection_invariant_witness:
  "runSafeOps initialState
     [AddDocument exampleDocument, AddField ''doc1'' manualField,
      MergeFields ''doc1'' [detectedField], SelectField ''doc1'' (Some ''f1''),
      RemoveField ''doc1'' ''f1'']
     = Some (runOps [AddDocument exampleDocument, AddField ''doc1'' manualField,
                     MergeFields ''doc1'' [detectedField], SelectField ''doc1'' (Some ''f1''),
                     RemoveField ''doc1'' ''f1'']) \<and>
   storeSelectionValid
     (runOps [AddDocument exampleDocument, AddField ''doc1'' manualField,
              MergeFields ''doc1'' [detectedField], SelectField ''doc1'' (Some ''f1''),
              RemoveField ''doc1'' ''f1''])"
proof -
  have h: "runSafeOps initialState
     [AddDocument exampleDocument, AddField ''doc1'' manualField,
      MergeFields ''doc1'' [detectedField], SelectField ''doc1'' (Some ''f1''),
      RemoveField ''doc1'' ''f1'']
     = Some (runOps [AddDocument exampleDocument, AddField ''doc1'' manualField,
                     MergeFields ''doc1'' [detectedField], SelectField ''doc1'' (Some ''f1''),
                     RemoveField ''doc1'' ''f1''])"
    by (simp add: store_defs)
  from selection_invariant [OF h] h show ?thesis by simp
qed

subsection \<open>The archive serializer\<close>

lemma put_filled:
  "put bs (filled pre n) =
     (if length bs \<le> n then Some (filled (pre @ bs) (n - length bs)) else None)"
proof (cases "length bs \<le> n")
  case True
  then have "replicate n (0::byte) = replicate (length bs) 0 @ replicate (n - length bs) 0"
    by (simp add: replicate_add [symmetric])
  then have "drop (length bs) (replicate n (0::byte)) = replicate (n - length bs) 0"
    by simp
  with True show ?thesis by (simp add: put_def filled_def)
next
  case False
  then show ?thesis by (simp add: put_def filled_def)
qed

lemma writes_puts:
  "writes (map put chunks) (filled pre n) =
     (if length (concat chunks) \<le> n
      then Some (filled (pre @ concat chunks) (n - length (concat chunks))) else None)"
  by (induction chunks arbitrary: pre n) (auto simp: put_filled)

lemma writeLocal_filled:
  "writeLocal entry (filled pre n) =
     (if length (localBytes entry) \<le> n
      then Some (filled (pre @ localBytes entry) (n - length (localBytes entry))) else None)"
proof -
  have "writeLocal entry =
     writes (map put [uint32Bytes 0x04034b50, uint16Bytes 20, uint16Bytes 0, uint16Bytes 0,
       uint16Bytes (m_dosTime entry), uint16Bytes (m_dosDate entry), uint32Bytes (m_crc32 entry),
       uint32Bytes (of_nat (length (m_data entry))), uint32Bytes (of_nat (length (m_data entry))),
       uint16Bytes (of_nat (length (m_nameBytes entry))), uint16Bytes 0,
       m_nameBytes entry, m_data entry])"
    by (simp add: writeLocal_def writeUint32_def [abs_def] writeUint16_def [abs_def])
  then show ?thesis
    by (simp only: writes_puts) (simp add: localBytes_def)
qed


lemma writeCentral_filled:
  "writeCentral entry (filled pre n) =
     (if length (centralBytes entry) \<le> n
      then Some (filled (pre @ centralBytes entry) (n - length (centralBytes entry))) else None)"
proof -
  have "writeCentral entry =
     writes (map put [uint32Bytes 0x02014b50, uint16Bytes 20, uint16Bytes 20, uint16Bytes 0,
       uint16Bytes 0, uint16Bytes (m_dosTime entry), uint16Bytes (m_dosDate entry),
       uint32Bytes (m_crc32 entry),
       uint32Bytes (of_nat (length (m_data entry))), uint32Bytes (of_nat (length (m_data entry))),
       uint16Bytes (of_nat (length (m_nameBytes entry))), uint16Bytes 0, uint16Bytes 0,
       uint16Bytes 0, uint16Bytes 0, uint32Bytes 0,
       uint32Bytes (of_nat (m_localHeaderOffset entry)), m_nameBytes entry])"
    by (simp add: writeCentral_def writeUint32_def [abs_def] writeUint16_def [abs_def])
  then show ?thesis
    by (simp only: writes_puts) (simp add: centralBytes_def)
qed

lemma writeEnd_filled:
  "writeEnd c sz off (filled pre n) =
     (if length (endBytes c sz off) \<le> n
      then Some (filled (pre @ endBytes c sz off) (n - length (endBytes c sz off))) else None)"
proof -
  have "writeEnd c sz off =
     writes (map put [uint32Bytes 0x06054b50, uint16Bytes 0, uint16Bytes 0,
       uint16Bytes (of_nat c), uint16Bytes (of_nat c),
       uint32Bytes (of_nat sz), uint32Bytes (of_nat off), uint16Bytes 0])"
    by (simp add: writeEnd_def writeUint32_def [abs_def] writeUint16_def [abs_def])
  then show ?thesis
    by (simp only: writes_puts) (simp add: endBytes_def)
qed

lemma writes_entries:
  assumes "\<And>e pre n. f e (filled pre n) =
     (if length (g e) \<le> n then Some (filled (pre @ g e) (n - length (g e))) else None)"
  shows "writes (map f es) (filled pre n) =
     (if length (concat (map g es)) \<le> n
      then Some (filled (pre @ concat (map g es)) (n - length (concat (map g es)))) else None)"
  by (induction es arbitrary: pre n) (auto simp: assms)

lemma length_localBytes:
  "length (localBytes e) = 30 + length (m_nameBytes e) + length (m_data e)"
  by (simp add: localBytes_def uint32Bytes_def uint16Bytes_def)

lemma length_centralBytes:
  "length (centralBytes e) = 46 + length (m_nameBytes e)"
  by (simp add: centralBytes_def uint32Bytes_def uint16Bytes_def)

lemma length_endBytes: "length (endBytes c sz off) = 22"
  by (simp add: endBytes_def uint32Bytes_def uint16Bytes_def)

text \<open>What \<open>assignOffsets\<close> leaves alone, and the offsets it assigns.\<close>

lemma assignOffsets_fst_Cons:
  "fst (assignOffsets off (e # es)) =
     e \<lparr> m_localHeaderOffset := off \<rparr> #
     fst (assignOffsets (off + (m_localHeaderLength e + length (m_data e))) es)"
  by (simp split: prod.splits)

lemma assignOffsets_snd_Cons:
  "snd (assignOffsets off (e # es)) =
     snd (assignOffsets (off + (m_localHeaderLength e + length (m_data e))) es)"
  by (simp split: prod.splits)

lemma assignOffsets_length: "length (fst (assignOffsets off es)) = length es"
  by (induction es arbitrary: off) (simp_all add: assignOffsets_fst_Cons del: assignOffsets.simps(2))

lemma assignOffsets_nth:
  "k < length es \<Longrightarrow>
   fst (assignOffsets off es) ! k =
     (es ! k) \<lparr> m_localHeaderOffset :=
        off + (\<Sum>e \<leftarrow> take k es. m_localHeaderLength e + length (m_data e)) \<rparr>"
proof (induction es arbitrary: off k)
  case Nil
  then show ?case by simp
next
  case (Cons e es)
  show ?case
  proof (cases k)
    case 0
    then show ?thesis by (simp add: assignOffsets_fst_Cons del: assignOffsets.simps(2))
  next
    case (Suc j)
    with Cons.prems have "j < length es" by simp
    from Cons.IH [OF this, of "off + (m_localHeaderLength e + length (m_data e))"] Suc
    show ?thesis by (simp add: assignOffsets_fst_Cons add.assoc del: assignOffsets.simps(2))
  qed
qed

lemma assignOffsets_final:
  "snd (assignOffsets off es) = off + (\<Sum>e \<leftarrow> es. m_localHeaderLength e + length (m_data e))"
  by (induction es arbitrary: off) (simp_all add: assignOffsets_snd_Cons del: assignOffsets.simps(2))

lemma localBytes_offset_irrelevant:
  "localBytes (e \<lparr> m_localHeaderOffset := off \<rparr>) = localBytes e"
  by (simp add: localBytes_def)

lemma assignOffsets_localBytes:
  "map localBytes (fst (assignOffsets off es)) = map localBytes es"
  by (induction es arbitrary: off)
     (simp_all add: assignOffsets_fst_Cons localBytes_offset_irrelevant del: assignOffsets.simps(2))

lemma assignOffsets_centralHeaderLength:
  "map m_centralHeaderLength (fst (assignOffsets off es)) = map m_centralHeaderLength es"
  by (induction es arbitrary: off) (simp_all add: assignOffsets_fst_Cons del: assignOffsets.simps(2))

lemma assignOffsets_nameBytes:
  "map m_nameBytes (fst (assignOffsets off es)) = map m_nameBytes es"
  by (induction es arbitrary: off) (simp_all add: assignOffsets_fst_Cons del: assignOffsets.simps(2))

lemma foldl_sum_list:
  "foldl (\<lambda>sum e. sum + h e) a es = a + sum_list (map h es)" for a :: nat
  by (induction es arbitrary: a) simp_all

lemma length_concat_map: "length (concat (map g es)) = (\<Sum>e \<leftarrow> es. length (g e))"
  by (simp add: length_concat comp_def)


lemma map_snd_enumerate_fun:
  "map (\<lambda>p. h (snd p)) (enumerate n files) = map h files"
  by (induction files arbitrary: n) simp_all

lemma sum_enumerate:
  "(\<Sum>p \<leftarrow> enumerate n files. h (snd p)) = (\<Sum>file \<leftarrow> files. h file)"
  by (simp only: map_snd_enumerate_fun)

lemma entryMeta_fields:
  "m_nameBytes (entryMeta now p) = encode (z_name (snd p))"
  "m_data (entryMeta now p) = z_data (snd p)"
  "m_crc32 (entryMeta now p) = computeCrc32 (z_data (snd p))"
  "m_localHeaderLength (entryMeta now p) = 30 + length (encode (z_name (snd p)))"
  "m_centralHeaderLength (entryMeta now p) = 46 + length (encode (z_name (snd p)))"
  by (simp_all add: entryMeta_def Let_def split: prod.splits)

lemma locals_length:
  "length (concat (map localBytes (metadataOf now files))) = (\<Sum>file \<leftarrow> files. localSize file)"
proof -
  have "length (concat (map localBytes (metadataOf now files))) =
        (\<Sum>p \<leftarrow> enumerate 0 files. length (localBytes (entryMeta now p)))"
    by (simp add: metadataOf_def assignOffsets_localBytes length_concat comp_def)
  also have "\<dots> = (\<Sum>p \<leftarrow> enumerate 0 files. localSize (snd p))"
    by (simp add: length_localBytes entryMeta_fields localSize_def)
  finally show ?thesis by (simp only: sum_enumerate)
qed

lemma offset_final:
  "snd (assignOffsets 0 (map (entryMeta now) (enumerate 0 files))) = (\<Sum>file \<leftarrow> files. localSize file)"
proof -
  have "snd (assignOffsets 0 (map (entryMeta now) (enumerate 0 files))) =
        (\<Sum>p \<leftarrow> enumerate 0 files. localSize (snd p))"
    by (simp add: assignOffsets_final comp_def entryMeta_fields localSize_def add.assoc)
  then show ?thesis by (simp only: sum_enumerate)
qed

lemma centrals_length:
  "length (concat (map centralBytes (metadataOf now files))) = (\<Sum>file \<leftarrow> files. centralSize file)"
proof -
  have "length (concat (map centralBytes (metadataOf now files))) =
        sum_list (map length (map m_nameBytes (metadataOf now files))) + 46 * length (metadataOf now files)"
    by (simp add: length_concat comp_def length_centralBytes sum_list_addf sum_list_triv)
  also have "\<dots> = (\<Sum>p \<leftarrow> enumerate 0 files. centralSize (snd p))"
    by (simp add: metadataOf_def assignOffsets_nameBytes assignOffsets_length comp_def
          entryMeta_fields centralSize_def sum_list_addf sum_list_triv)
  finally show ?thesis by (simp only: sum_enumerate)
qed

lemma centralDirectorySize_sum:
  "foldl (\<lambda>sum entry. sum + m_centralHeaderLength entry) 0 (metadataOf now files) =
     (\<Sum>file \<leftarrow> files. centralSize file)"
proof -
  have "foldl (\<lambda>sum entry. sum + m_centralHeaderLength entry) 0 (metadataOf now files) =
        sum_list (map m_centralHeaderLength (metadataOf now files))"
    by (simp add: foldl_sum_list)
  also have "\<dots> = (\<Sum>p \<leftarrow> enumerate 0 files. centralSize (snd p))"
    by (simp add: metadataOf_def assignOffsets_centralHeaderLength comp_def entryMeta_fields centralSize_def)
  finally show ?thesis by (simp only: sum_enumerate)
qed

lemma metadataOf_length: "length (metadataOf now files) = length files"
  by (simp add: metadataOf_def assignOffsets_length)

lemma createZipFromFiles_bytes:
  "createZipFromFiles now files =
     Some (concat (map localBytes (metadataOf now files)) @
           concat (map centralBytes (metadataOf now files)) @
           endBytes (length files) (\<Sum>file \<leftarrow> files. centralSize file)
                    (\<Sum>file \<leftarrow> files. localSize file))"
proof -
  let ?md = "metadataOf now files"
  let ?off = "\<Sum>file \<leftarrow> files. localSize file"
  let ?cds = "\<Sum>file \<leftarrow> files. centralSize file"
  let ?locals = "concat (map localBytes ?md)"
  let ?centrals = "concat (map centralBytes ?md)"
  have ao: "assignOffsets 0 (map (entryMeta now) (enumerate 0 files)) = (?md, ?off)"
    using offset_final [of now files] by (simp add: metadataOf_def prod_eq_iff)
  have start: "(replicate (?off + ?cds + 22) (0::byte), 0) = filled [] (?off + ?cds + 22)"
    by (simp add: filled_def)
  have w1: "writes (map writeLocal ?md) (filled [] (?off + ?cds + 22)) = Some (filled ?locals (?cds + 22))"
    by (simp add: writes_entries [of writeLocal localBytes, OF writeLocal_filled] locals_length)
  have w2: "writes (map writeCentral ?md) (filled ?locals (?cds + 22)) = Some (filled (?locals @ ?centrals) 22)"
    by (simp add: writes_entries [of writeCentral centralBytes, OF writeCentral_filled] centrals_length)
  have w3: "writeEnd (length ?md) ?cds ?off (filled (?locals @ ?centrals) 22) =
              Some (filled ((?locals @ ?centrals) @ endBytes (length ?md) ?cds ?off) 0)"
    by (simp add: writeEnd_filled length_endBytes)
  have p: "snd (filled ?locals (?cds + 22)) = ?off"
    by (simp add: filled_def locals_length)
  show ?thesis
    unfolding createZipFromFiles_def ao
    by (simp add: Let_def centralDirectorySize_sum start w1 w2 p w3)
       (simp add: filled_def metadataOf_length)
qed

text \<open>The table-driven step is eight shifts of the register after the byte is xor-ed in.\<close>

lemma crcShift_alt:
  "crcShift v = drop_bit 1 v XOR (if bit v 0 then 0xedb88320 else 0)"
  by (cases "even v")
     (simp_all add: crcShift_def and_one_eq bit_0 xor.commute even_iff_mod_2_eq_zero
        odd_iff_mod_2_eq_one)

lemma crcShift_xor: "crcShift (a XOR b) = crcShift a XOR crcShift b"
  unfolding crcShift_alt
  by (simp add: bit_xor_iff drop_bit_xor ac_simps) 

lemma crcShift_pow_xor: "(crcShift ^^ n) (a XOR b) = (crcShift ^^ n) a XOR (crcShift ^^ n) b"
  by (induction n) (simp_all add: crcShift_xor)

lemma crcShift_pow_high:
  "n \<le> 8 \<Longrightarrow> (crcShift ^^ n) (push_bit 8 y) = drop_bit n (push_bit 8 y)"
proof (induction n)
  case 0
  show ?case by simp
next
  case (Suc n)
  then have "\<not> bit (drop_bit n (push_bit 8 y)) 0"
    by (simp add: bit_drop_bit_eq bit_push_bit_iff)
  with Suc show ?case
    by (simp add: crcShift_alt drop_bit_drop_bit)
qed

lemma table_lookup:
  "CRC32_TABLE ! unat (x AND 0xff) = (crcShift ^^ 8) (x AND 0xff)" for x :: "32 word"
proof -
  have "unat (x AND 0xff) \<le> unat (0xff :: 32 word)"
    by (rule word_and_le1 [THEN word_le_nat_alt [THEN iffD1]])
  then have lt: "unat (x AND 0xff) < 256" by simp
  then show ?thesis
    by (simp add: CRC32_TABLE_def del: funpow.simps)
qed

lemma low_mask: "(0xff :: 32 word) = mask 8"
  by (simp add: mask_eq_exp_minus_1)

lemma split_low: "x = push_bit 8 (drop_bit 8 x) XOR (x AND 0xff)" for x :: "32 word"
  unfolding low_mask
  by (rule bit_eqI) (auto simp: bit_xor_iff bit_and_iff bit_push_bit_iff bit_drop_bit_eq bit_mask_iff)


lemma drop_push_drop: "drop_bit 8 (push_bit 8 (drop_bit 8 x)) = drop_bit 8 x" for x :: "32 word"
  by (rule bit_eqI) (auto simp: bit_push_bit_iff bit_drop_bit_eq dest: bit_imp_le_length)

lemma drop_xor_byte: "drop_bit 8 (crc XOR ucast b) = drop_bit 8 crc"
  for crc :: "32 word" and b :: byte
  by (rule bit_eqI) (auto simp: bit_xor_iff bit_drop_bit_eq bit_ucast_iff dest: bit_imp_le_length)

lemma crcUpdate_bitwise: "crcUpdate crc b = (crcShift ^^ 8) (crc XOR ucast b)"
proof -
  let ?x = "crc XOR ucast b"
  have "(crcShift ^^ 8) ?x = (crcShift ^^ 8) (push_bit 8 (drop_bit 8 ?x) XOR (?x AND 0xff))"
    using split_low [of ?x] by simp
  also have "\<dots> = drop_bit 8 (push_bit 8 (drop_bit 8 ?x)) XOR (crcShift ^^ 8) (?x AND 0xff)"
    by (simp only: crcShift_pow_xor crcShift_pow_high [OF order_refl])
  also have "\<dots> = drop_bit 8 crc XOR CRC32_TABLE ! unat (?x AND 0xff)"
    by (simp only: drop_push_drop drop_xor_byte table_lookup)
  finally show ?thesis by (simp add: crcUpdate_def Let_def)
qed

lemma computeCrc32_bitwise: "computeCrc32 d = crcBitwise d"
proof -
  have "crcUpdate = (\<lambda>crc b. (crcShift ^^ 8) (crc XOR ucast b))"
    by (intro ext) (rule crcUpdate_bitwise)
  then show ?thesis by (simp only: computeCrc32_def crcBitwise_def)
qed

lemma readLE_uint16: "readLE (uint16Bytes v) = unat v mod 65536"
proof -
  have a: "unat (ucast v :: byte) = unat v mod 256"
    by (simp add: unsigned_ucast_eq take_bit_eq_mod)
  have b: "unat (ucast (drop_bit 8 v) :: byte) = (unat v div 256) mod 256"
    by (simp add: unsigned_ucast_eq take_bit_eq_mod unat_drop_bit_eq drop_bit_eq_div unat_div_distrib)
  have "unat v mod 65536 = 256 * (unat v div 256 mod 256) + unat v mod 256"
    using mod_mult2_eq [of "unat v" 256 256] by simp
  then show ?thesis
    by (simp add: readLE_def uint16Bytes_def a b)
qed

lemma readLE_uint16_of_nat: "readLE (uint16Bytes (of_nat n)) = n mod 65536"
proof -
  have "unat (of_nat n :: 32 word) = n mod 2 ^ 32"
    by (simp add: unat_of_nat)
  moreover have "n mod 2 ^ 32 mod 65536 = n mod 65536"
    by (rule mod_mod_cancel) simp
  ultimately show ?thesis by (simp add: readLE_uint16)
qed

lemma endRecord_append:
  "endRecord (xs @ ys @ endBytes c sz off) = endBytes c sz off"
  by (simp add: endRecord_def length_endBytes)

lemma endBytes_fields:
  "bytesAt 0 4 (endBytes c sz off) = [0x50, 0x4b, 0x05, 0x06]"
  "bytesAt 8 2 (endBytes c sz off) = uint16Bytes (of_nat c)"
  "bytesAt 10 2 (endBytes c sz off) = uint16Bytes (of_nat c)"
  by (simp_all add: bytesAt_def endBytes_def uint32Bytes_def uint16Bytes_def)

lemma createZipFromFiles_length:
  assumes "createZipFromFiles now files = Some blob"
  shows "length blob = (\<Sum>file \<leftarrow> files. localSize file) + (\<Sum>file \<leftarrow> files. centralSize file) + 22"
  using assms unfolding createZipFromFiles_bytes
  by (auto simp: locals_length centrals_length length_endBytes)

lemma createZipFromFiles_counts:
  assumes "createZipFromFiles now files = Some blob"
  shows "bytesAt 0 4 (endRecord blob) = [0x50, 0x4b, 0x05, 0x06]"
    and "entriesOnDisk blob = length files mod 65536"
    and "entriesTotal blob = length files mod 65536"
  using assms unfolding createZipFromFiles_bytes entriesOnDisk_def entriesTotal_def
  by (auto simp: endRecord_append endBytes_fields readLE_uint16_of_nat)

text \<open>
  Claim C5, amended. \<open>createZipFromFiles\<close> returns a blob for every list of entries;
  its length is the sum of \<open>30 + name length + data length\<close> over the entries, plus the
  sum of \<open>46 + name length\<close>, plus 22; its last 22 bytes start with the signature
  \<open>0x06054B50\<close> in little-endian order, and both entry-count fields hold the number
  of entries modulo 65536, which is the number of entries when there are fewer than
  65536. For the one entry \<open>a.pdf\<close> with three bytes the blob has 111 bytes and the
  end record reports one entry.
\<close>

theorem archive_size_and_count:
  "\<exists>blob. createZipFromFiles now files = Some blob \<and>
     length blob =
       (\<Sum>file \<leftarrow> files. 30 + length (encode (z_name file)) + length (z_data file)) +
       (\<Sum>file \<leftarrow> files. 46 + length (encode (z_name file))) + 22 \<and>
     bytesAt 0 4 (endRecord blob) = [0x50, 0x4b, 0x05, 0x06] \<and>
     entriesOnDisk blob = length files mod 65536 \<and>
     entriesTotal blob = length files mod 65536 \<and>
     (length files < 65536 \<longrightarrow>
        entriesOnDisk blob = length files \<and> entriesTotal blob = length files) \<and>
     (files = [\<lparr> z_name = ''a.pdf'', z_data = [1, 2, 3], z_date = date \<rparr>] \<longrightarrow>
        length blob = 111 \<and> entriesOnDisk blob = 1 \<and> entriesTotal blob = 1)"
proof -
  obtain blob where b: "createZipFromFiles now files = Some blob"
    by (simp add: createZipFromFiles_bytes)
  have len: "length blob =
       (\<Sum>file \<leftarrow> files. 30 + length (encode (z_name file)) + length (z_data file)) +
       (\<Sum>file \<leftarrow> files. 46 + length (encode (z_name file))) + 22"
    using createZipFromFiles_length [OF b] by (simp add: localSize_def centralSize_def)
  note c = createZipFromFiles_counts [OF b]
  have small: "length blob = 111 \<and> entriesOnDisk blob = 1 \<and> entriesTotal blob = 1"
    if "files = [\<lparr> z_name = ''a.pdf'', z_data = [1, 2, 3], z_date = date \<rparr>]"
    using len c that by (simp add: encode_def)
  from b len c small show ?thesis by auto
qed


text \<open>The archive of the single entry \<open>a.pdf\<close>.\<close>

theorem archive_size_and_count_witness:
  "map_option length (createZipFromFiles fixedClock [smallEntry]) = Some 111 \<and>
   map_option entriesOnDisk (createZipFromFiles fixedClock [smallEntry]) = Some 1 \<and>
   map_option entriesTotal (createZipFromFiles fixedClock [smallEntry]) = Some 1"
  using archive_size_and_count [of fixedClock "[smallEntry]" "Some fixedDate"]
  by (auto simp: smallEntry_def)

text \<open>
  Claim C5 as it is stated fails for 65536 entries: the end record has sixteen bits for
  the count and reports none.
\<close>

theorem archive_size_and_count_counterexample:
  "map_option entriesTotal (createZipFromFiles fixedClock (replicate 65536 smallEntry)) = Some 0"
proof -
  obtain blob where b: "createZipFromFiles fixedClock (replicate 65536 smallEntry) = Some blob"
    by (simp add: createZipFromFiles_bytes)
  from createZipFromFiles_counts(3) [OF b] b show ?thesis by simp
qed

text \<open>Where the bytes of entry \<open>k\<close> start in a concatenation.\<close>

lemma drop_concat_map:
  assumes "k < length es"
  shows "drop (\<Sum>e \<leftarrow> take k es. length (g e)) (concat (map g es)) =
         g (es ! k) @ concat (map g (drop (Suc k) es))"
proof -
  have "concat (map g es) = concat (map g (take k es)) @ concat (map g (drop k es))"
    by (metis append_take_drop_id concat_append map_append)
  moreover have "length (concat (map g (take k es))) = (\<Sum>e \<leftarrow> take k es. length (g e))"
    by (simp add: length_concat comp_def)
  moreover have "drop k es = es ! k # drop (Suc k) es"
    using assms by (simp add: Cons_nth_drop_Suc)
  ultimately show ?thesis by simp
qed

lemma bytesAt_offset:
  assumes "drop off xs = ys @ rest" "a + n \<le> length ys"
  shows "bytesAt (off + a) n (xs @ zs) = bytesAt a n ys"
proof (cases "off \<le> length xs")
  case True
  have "drop (off + a) (xs @ zs) = drop a (drop off (xs @ zs))"
    by (simp only: drop_drop add.commute [of off a])
  also have "\<dots> = drop a (ys @ rest @ zs)"
    using True assms(1) by simp
  finally show ?thesis using assms(2) by (simp add: bytesAt_def)
next
  case False
  then have "drop off xs = []" by simp
  with assms have "n = 0" by simp
  then show ?thesis by (simp add: bytesAt_def)
qed

lemma localBytes_fields:
  "bytesAt 0 4 (localBytes e) = [0x50, 0x4b, 0x03, 0x04]"
  "bytesAt 14 4 (localBytes e) = uint32Bytes (m_crc32 e)"
  by (simp_all add: bytesAt_def localBytes_def uint32Bytes_def uint16Bytes_def)

lemma centralBytes_fields:
  "bytesAt 0 4 (centralBytes e) = [0x50, 0x4b, 0x01, 0x02]"
  "bytesAt 16 4 (centralBytes e) = uint32Bytes (m_crc32 e)"
  by (simp_all add: bytesAt_def centralBytes_def uint32Bytes_def uint16Bytes_def)

lemma metadataOf_nth:
  assumes "k < length files"
  shows "m_crc32 (metadataOf now files ! k) = computeCrc32 (z_data (files ! k))"
    and "m_nameBytes (metadataOf now files ! k) = encode (z_name (files ! k))"
    and "m_data (metadataOf now files ! k) = z_data (files ! k)"
  using assms
  by (simp_all add: metadataOf_def assignOffsets_nth nth_enumerate_eq entryMeta_fields)

lemma local_sizes:
  "map (\<lambda>e. length (localBytes e)) (metadataOf now files) = map localSize files"
  by (rule nth_equalityI)
     (simp_all add: metadataOf_length length_localBytes metadataOf_nth localSize_def)

lemma central_sizes:
  "map (\<lambda>e. length (centralBytes e)) (metadataOf now files) = map centralSize files"
  by (rule nth_equalityI)
     (simp_all add: metadataOf_length length_centralBytes metadataOf_nth centralSize_def)

lemma sum_take_map:
  "map h es = map h' fs \<Longrightarrow> (\<Sum>e \<leftarrow> take k es. h e) = (\<Sum>f \<leftarrow> take k fs. h' f)"
  by (metis take_map)

lemma localOffset_alt:
  "localOffset files k = (\<Sum>e \<leftarrow> take k (metadataOf now files). length (localBytes e))"
  unfolding localOffset_def
  using sum_take_map [OF local_sizes, of k now files] by (simp add: localSize_def)

lemma centralOffset_alt:
  "centralOffset files k =
     length (concat (map localBytes (metadataOf now files))) +
     (\<Sum>e \<leftarrow> take k (metadataOf now files). length (centralBytes e))"
  unfolding centralOffset_def
  using sum_take_map [OF central_sizes, of k now files] localOffset_alt [of files "length files" now]
  by (simp add: centralSize_def length_concat comp_def metadataOf_length)

lemma createZipFromFiles_local:
  assumes "createZipFromFiles now files = Some blob" "k < length files"
  shows "bytesAt (localOffset files k) 4 blob = [0x50, 0x4b, 0x03, 0x04]"
    and "bytesAt (localOffset files k + 14) 4 blob = uint32Bytes (computeCrc32 (z_data (files ! k)))"
proof -
  let ?md = "metadataOf now files"
  have k: "k < length ?md" using assms(2) by (simp add: metadataOf_length)
  have blob: "blob = concat (map localBytes ?md) @
           (concat (map centralBytes ?md) @
           endBytes (length files) (\<Sum>file \<leftarrow> files. centralSize file)
                    (\<Sum>file \<leftarrow> files. localSize file))"
    using assms(1) by (simp add: createZipFromFiles_bytes)
  note d = drop_concat_map [OF k, of localBytes, folded localOffset_alt]
  have l: "18 \<le> length (localBytes (?md ! k))" by (simp add: length_localBytes)
  from bytesAt_offset [OF d, of 0 4] l
  show "bytesAt (localOffset files k) 4 blob = [0x50, 0x4b, 0x03, 0x04]"
    by (simp add: blob localBytes_fields)
  from bytesAt_offset [OF d, of 14 4] l
  show "bytesAt (localOffset files k + 14) 4 blob = uint32Bytes (computeCrc32 (z_data (files ! k)))"
    by (simp add: blob localBytes_fields metadataOf_nth [OF assms(2)])
qed

lemma createZipFromFiles_central:
  assumes "createZipFromFiles now files = Some blob" "k < length files"
  shows "bytesAt (centralOffset files k) 4 blob = [0x50, 0x4b, 0x01, 0x02]"
    and "bytesAt (centralOffset files k + 16) 4 blob = uint32Bytes (computeCrc32 (z_data (files ! k)))"
proof -
  let ?md = "metadataOf now files"
  let ?locals = "concat (map localBytes ?md)"
  let ?tail = "endBytes (length files) (\<Sum>file \<leftarrow> files. centralSize file)
                    (\<Sum>file \<leftarrow> files. localSize file)"
  have k: "k < length ?md" using assms(2) by (simp add: metadataOf_length)
  have blob: "blob = ?locals @ (concat (map centralBytes ?md) @ ?tail)"
    using assms(1) by (simp add: createZipFromFiles_bytes)
  note d = drop_concat_map [OF k, of centralBytes]
  have l: "20 \<le> length (centralBytes (?md ! k))" by (simp add: length_centralBytes)
  have shift: "bytesAt (centralOffset files k + a) n blob =
        bytesAt ((\<Sum>e \<leftarrow> take k ?md. length (centralBytes e)) + a) n (concat (map centralBytes ?md) @ ?tail)"
    for a n
    by (simp add: blob bytesAt_def centralOffset_alt [of files k now] add.assoc)
  from bytesAt_offset [OF d, of 0 4 ?tail] l
  show "bytesAt (centralOffset files k) 4 blob = [0x50, 0x4b, 0x01, 0x02]"
    using shift [of 0 4] by (simp add: centralBytes_fields)
  from bytesAt_offset [OF d, of 16 4 ?tail] l
  show "bytesAt (centralOffset files k + 16) 4 blob = uint32Bytes (computeCrc32 (z_data (files ! k)))"
    using shift [of 16 4] by (simp add: centralBytes_fields metadataOf_nth [OF assms(2)])
qed

lemma entryMeta_dated:
  "z_date (snd p) \<noteq> None \<Longrightarrow> entryMeta now p = entryMeta now' p"
proof -
  assume "z_date (snd p) \<noteq> None"
  then obtain date where "z_date (snd p) = Some date" by blast
  then show ?thesis by (cases p) (simp add: entryMeta_def orElse_def)
qed

lemma createZipFromFiles_clock:
  assumes "list_all (\<lambda>file. z_date file \<noteq> None) files"
  shows "createZipFromFiles now files = createZipFromFiles now' files"
proof -
  have "map (entryMeta now) (enumerate 0 files) = map (entryMeta now') (enumerate 0 files)"
  proof (rule map_cong [OF refl])
    fix p assume "p \<in> set (enumerate 0 files)"
    then have "fst p < length files" "files ! fst p = snd p"
      by (simp_all add: in_set_enumerate_eq)
    then have "snd p \<in> set files"
      using nth_mem [of "fst p" files] by simp
    with assms have "z_date (snd p) \<noteq> None" by (simp add: list_all_iff)
    then show "entryMeta now p = entryMeta now' p" by (rule entryMeta_dated)
  qed
  then show ?thesis by (simp only: createZipFromFiles_def)
qed

text \<open>
  Claim C4. When every entry carries its date, the blob does not depend on the clock,
  so two calls on the same entries give the same bytes. The blob exists, and for each
  entry the local header (signature \<open>0x04034B50\<close>) holds at offset 14, and the
  central-directory record (signature \<open>0x02014B50\<close>) at offset 16, the four
  little-endian bytes of \<open>computeCrc32\<close> of the entry's data. The table-driven
  \<open>computeCrc32\<close> is the byte-at-a-time CRC of the reflected polynomial \<open>0xEDB88320\<close>
  with initial and final xor \<open>0xFFFFFFFF\<close>.
\<close>

theorem archive_deterministic_crc:
  "(list_all (\<lambda>file. z_date file \<noteq> None) files \<longrightarrow>
      createZipFromFiles now files = createZipFromFiles now' files) \<and>
   (\<exists>blob. createZipFromFiles now files = Some blob \<and>
      (\<forall>k < length files.
         bytesAt (localOffset files k) 4 blob = [0x50, 0x4b, 0x03, 0x04] \<and>
         bytesAt (localOffset files k + 14) 4 blob = uint32Bytes (computeCrc32 (z_data (files ! k))) \<and>
         bytesAt (centralOffset files k) 4 blob = [0x50, 0x4b, 0x01, 0x02] \<and>
         bytesAt (centralOffset files k + 16) 4 blob = uint32Bytes (computeCrc32 (z_data (files ! k))))) \<and>
   computeCrc32 d = crcBitwise d"
proof (intro conjI impI)
  assume "list_all (\<lambda>file. z_date file \<noteq> None) files"
  then show "createZipFromFiles now files = createZipFromFiles now' files"
    by (rule createZipFromFiles_clock)
next
  obtain blob where b: "createZipFromFiles now files = Some blob"
    by (simp add: createZipFromFiles_bytes)
  show "\<exists>blob. createZipFromFiles now files = Some blob \<and>
      (\<forall>k < length files.
         bytesAt (localOffset files k) 4 blob = [0x50, 0x4b, 0x03, 0x04] \<and>
         bytesAt (localOffset files k + 14) 4 blob = uint32Bytes (computeCrc32 (z_data (files ! k))) \<and>
         bytesAt (centralOffset files k) 4 blob = [0x50, 0x4b, 0x01, 0x02] \<and>
         bytesAt (centralOffset files k + 16) 4 blob = uint32Bytes (computeCrc32 (z_data (files ! k))))"
  proof (intro exI conjI allI impI)
    show "createZipFromFiles now files = Some blob" by (rule b)
  qed (rule createZipFromFiles_local [OF b] createZipFromFiles_central [OF b]; assumption)+
next
  show "computeCrc32 d = crcBitwise d" by (rule computeCrc32_bitwise)
qed

subsection \<open>The form synthesizer\<close>






lemma showNat_digit: "n < 10 \<Longrightarrow> showNat n = [digitChar n]"
  by (simp add: showNat.simps)

text \<open>
  Claim C6 fails on the code. The second field called \<open>name\<close> becomes \<open>name_2\<close>, and
  so stays the field the user called \<open>name_2\<close>: two widgets are created under one
  name.
\<close>

theorem widget_names_collide:
  "map w_name (buildWidgets collidingDocument) = [''name'', ''name_2'', ''name_2''] \<and>
   \<not> distinct (map w_name (buildWidgets collidingDocument))"
  by (simp add: buildWidgets_def collidingDocument_def exampleDocument_def manualField_def
        examplePage_def placeField_def pageAt_def toPdfRect_def Let_def orElse_def
        showNat_digit digitChar_def)

subsection \<open>The export orchestrator\<close>

lemma collectFiles_names:
  "collectFiles writer docs = Some files \<Longrightarrow>
   map z_name files = map (\<lambda>document. fillableName (d_fileName document))
                          (filter (\<lambda>document. d_fields document \<noteq> []) docs) \<and>
   map (\<lambda>file. Some (z_data file)) files =
     map (buildFillablePdf writer) (filter (\<lambda>document. d_fields document \<noteq> []) docs)"
proof (induction docs arbitrary: files)
  case Nil
  then show ?case by simp
next
  case (Cons document docs)
  show ?case
  proof (cases "d_fields document = []")
    case True
    with Cons show ?thesis by simp
  next
    case False
    with Cons.prems obtain bytes rest where
      b: "buildFillablePdf writer document = Some bytes" and
      r: "collectFiles writer docs = Some rest" and
      f: "files = \<lparr> z_name = fillableName (d_fileName document), z_data = bytes, z_date = None \<rparr> # rest"
      by (auto split: option.splits)
    from Cons.IH [OF r] False b f show ?thesis by simp
  qed
qed

lemma collectFiles_empty:
  "\<forall>document \<in> set docs. d_fields document = [] \<Longrightarrow> collectFiles writer docs = Some []"
  by (induction docs) simp_all

lemma collectFiles_succeeds:
  "\<forall>document \<in> set docs. d_fields document \<noteq> [] \<longrightarrow> buildFillablePdf writer document \<noteq> None \<Longrightarrow>
   \<exists>files. collectFiles writer docs = Some files"
  by (induction docs) auto

lemma stripPdf_suffix: "isPdfSuffix ext \<Longrightarrow> stripPdf (base @ ext) = base"
proof -
  assume a: "isPdfSuffix ext"
  then have "length ext = 4"
    by (auto simp: isPdfSuffix_def split: list.splits)
  with a show ?thesis by (simp add: stripPdf_def)
qed

text \<open>
  Claim C9. When \<open>handleExportAll\<close> offers a download, it is the archive of exactly the
  documents that have fields, in their order, each under its file name with a trailing
  \<open>.pdf\<close> (in any case) replaced by \<open>-fillable.pdf\<close> and with the bytes the synthesizer
  gave; it does offer one when some document has fields and the synthesizer succeeds
  on each of them. When no document has fields the result is an error message and no
  download, and \<open>handleExportCurrent\<close> on an active document without fields is an
  error message as well.
\<close>

theorem export_selection:
  "(handleExportAll writer now state = Download archiveName blob \<longrightarrow>
      archiveName = ''fillable-pdfs.zip'' \<and>
      (\<exists>files. createZipFromFiles now files = Some blob \<and>
         map z_name files =
           map (\<lambda>document. fillableName (d_fileName document))
               (filter (\<lambda>document. d_fields document \<noteq> []) (documents state)) \<and>
         map (\<lambda>file. Some (z_data file)) files =
           map (buildFillablePdf writer)
               (filter (\<lambda>document. d_fields document \<noteq> []) (documents state)))) \<and>
   ((\<exists>document \<in> set (documents state). d_fields document \<noteq> []) \<and>
    (\<forall>document \<in> set (documents state).
       d_fields document \<noteq> [] \<longrightarrow> buildFillablePdf writer document \<noteq> None) \<longrightarrow>
      (\<exists>blob'. handleExportAll writer now state = Download ''fillable-pdfs.zip'' blob')) \<and>
   ((\<forall>document \<in> set (documents state). d_fields document = []) \<longrightarrow>
      (\<exists>message. handleExportAll writer now state = ErrorMessage message)) \<and>
   (isPdfSuffix ext \<longrightarrow> fillableName (base @ ext) = base @ ''-fillable.pdf'') \<and>
   (\<not> isPdfSuffix (drop (length fileName - 4) fileName) \<longrightarrow>
      fillableName fileName = fileName @ ''-fillable.pdf'') \<and>
   (activeDocument state = Some current \<and> d_fields current = [] \<longrightarrow>
      handleExportCurrent writer state = ErrorMessage ''Nothing to export yet. Add fields first.'')"
proof (intro conjI impI)
  assume d: "handleExportAll writer now state = Download archiveName blob"
  then obtain files where
    c: "collectFiles writer (documents state) = Some files" and
    z: "createZipFromFiles now files = Some blob" and
    n: "archiveName = ''fillable-pdfs.zip''"
    by (auto simp: handleExportAll_def Let_def split: if_splits option.splits)
  from n show "archiveName = ''fillable-pdfs.zip''" .
  from collectFiles_names [OF c] z
  show "\<exists>files. createZipFromFiles now files = Some blob \<and>
         map z_name files =
           map (\<lambda>document. fillableName (d_fileName document))
               (filter (\<lambda>document. d_fields document \<noteq> []) (documents state)) \<and>
         map (\<lambda>file. Some (z_data file)) files =
           map (buildFillablePdf writer)
               (filter (\<lambda>document. d_fields document \<noteq> []) (documents state))"
    by blast
next
  assume a: "(\<exists>document \<in> set (documents state). d_fields document \<noteq> []) \<and>
    (\<forall>document \<in> set (documents state).
       d_fields document \<noteq> [] \<longrightarrow> buildFillablePdf writer document \<noteq> None)"
  then obtain files where c: "collectFiles writer (documents state) = Some files"
    using collectFiles_succeeds [of "documents state" writer] by blast
  from a have "filter (\<lambda>document. d_fields document \<noteq> []) (documents state) \<noteq> []"
    by (auto simp: filter_empty_conv)
  with collectFiles_names [OF c] have ne: "files \<noteq> []" by auto
  from a have docs: "documents state \<noteq> []" by auto
  obtain blob' where "createZipFromFiles now files = Some blob'"
    by (simp add: createZipFromFiles_bytes)
  with c ne docs show "\<exists>blob'. handleExportAll writer now state = Download ''fillable-pdfs.zip'' blob'"
    by (simp add: handleExportAll_def Let_def)
next
  assume "\<forall>document \<in> set (documents state). d_fields document = []"
  from collectFiles_empty [OF this, of writer]
  show "\<exists>message. handleExportAll writer now state = ErrorMessage message"
    by (simp add: handleExportAll_def Let_def)
next
  assume "isPdfSuffix ext"
  then show "fillableName (base @ ext) = base @ ''-fillable.pdf''"
    by (simp add: fillableName_def stripPdf_suffix)
next
  assume "\<not> isPdfSuffix (drop (length fileName - 4) fileName)"
  then show "fillableName fileName = fileName @ ''-fillable.pdf''"
    by (simp add: fillableName_def stripPdf_def)
next
  assume "activeDocument state = Some current \<and> d_fields current = []"
  then show "handleExportCurrent writer state = ErrorMessage ''Nothing to export yet. Add fields first.''"
    by (simp add: handleExportCurrent_def)
qed

lemma funpow8: "(f ^^ 8) x = f (f (f (f (f (f (f (f x)))))))"
  by (simp add: eval_nat_numeral)

lemma crcBitwise_123: "crcBitwise [1, 2, 3] = 0x55bc801d"
  by (simp add: crcBitwise_def crcShift_def funpow8)

text \<open>The check value of CRC-32, on the nine digits \<open>123456789\<close>.\<close>

lemma computeCrc32_check:
  "computeCrc32 [0x31, 0x32, 0x33, 0x34, 0x35, 0x36, 0x37, 0x38, 0x39] = 0xCBF43926"
  by (simp add: computeCrc32_bitwise crcBitwise_def crcShift_def funpow8)

lemma uint32Bytes_crc: "uint32Bytes 0x55bc801d = [0x1d, 0x80, 0xbc, 0x55]"
  by (simp add: uint32Bytes_def)

text \<open>The archive of \<open>a.pdf\<close> under two clocks, and the checksum of its three bytes.\<close>

theorem archive_deterministic_crc_witness:
  "list_all (\<lambda>file. z_date file \<noteq> None) [smallEntry] \<and>
   createZipFromFiles fixedClock [smallEntry] = createZipFromFiles laterClock [smallEntry] \<and>
   map_option (bytesAt 14 4) (createZipFromFiles fixedClock [smallEntry]) = Some [0x1d, 0x80, 0xbc, 0x55] \<and>
   map_option (bytesAt (38 + 16) 4) (createZipFromFiles fixedClock [smallEntry]) = Some [0x1d, 0x80, 0xbc, 0x55]"
proof -
  have h: "list_all (\<lambda>file. z_date file \<noteq> None) [smallEntry]"
    by (simp add: smallEntry_def)
  note t = archive_deterministic_crc [of "[smallEntry]" fixedClock laterClock "[1, 2, 3]"]
  from t h have same: "createZipFromFiles fixedClock [smallEntry] = createZipFromFiles laterClock [smallEntry]"
    by blast
  from t have crc: "computeCrc32 [1, 2, 3] = 0x55bc801d"
    by (simp only: crcBitwise_123)
  from t obtain blob where b: "createZipFromFiles fixedClock [smallEntry] = Some blob"
    and f: "\<forall>k < length [smallEntry].
         bytesAt (localOffset [smallEntry] k) 4 blob = [0x50, 0x4b, 0x03, 0x04] \<and>
         bytesAt (localOffset [smallEntry] k + 14) 4 blob = uint32Bytes (computeCrc32 (z_data ([smallEntry] ! k))) \<and>
         bytesAt (centralOffset [smallEntry] k) 4 blob = [0x50, 0x4b, 0x01, 0x02] \<and>
         bytesAt (centralOffset [smallEntry] k + 16) 4 blob = uint32Bytes (computeCrc32 (z_data ([smallEntry] ! k)))"
    by blast
  have z: "z_data smallEntry = [1, 2, 3]" by (simp add: smallEntry_def)
  have lo: "localOffset [smallEntry] 0 = 0" by (simp add: localOffset_def)
  have co: "centralOffset [smallEntry] 0 = 38"
    by (simp add: centralOffset_def localOffset_def smallEntry_def encode_def)
  from f [rule_format, of 0]
  have s: "bytesAt 14 4 blob = [0x1d, 0x80, 0xbc, 0x55]" "bytesAt (38 + 16) 4 blob = [0x1d, 0x80, 0xbc, 0x55]"
    by (simp_all add: lo co z crc uint32Bytes_crc)
  show ?thesis
  proof (intro conjI)
    show "list_all (\<lambda>file. z_date file \<noteq> None) [smallEntry]" by (rule h)
    show "createZipFromFiles fixedClock [smallEntry] = createZipFromFiles laterClock [smallEntry]"
      by (rule same)
    show "map_option (bytesAt 14 4) (createZipFromFiles fixedClock [smallEntry]) = Some [0x1d, 0x80, 0xbc, 0x55]"
      by (simp add: b s(1))
    show "map_option (bytesAt (38 + 16) 4) (createZipFromFiles fixedClock [smallEntry]) = Some [0x1d, 0x80, 0xbc, 0x55]"
      by (simp only: b option.map s(2))
  qed
qed

text \<open>Exports of a store with and without fields.\<close>

theorem export_selection_witness:
  "(\<exists>blob. handleExportAll echoWriter fixedClock
             (runOps [AddDocument exampleDocument, AddDocument filledDocument])
           = Download ''fillable-pdfs.zip'' blob) \<and>
   (\<exists>message. handleExportAll echoWriter fixedClock (runOps [AddDocument exampleDocument])
           = ErrorMessage message) \<and>
   fillableName ''Letter.PDF'' = ''Letter-fillable.pdf'' \<and>
   fillableName ''notes.txt'' = ''notes.txt-fillable.pdf'' \<and>
   handleExportCurrent echoWriter (runOps [AddDocument exampleDocument])
     = ErrorMessage ''Nothing to export yet. Add fields first.''"
proof -
  let ?two = "runOps [AddDocument exampleDocument, AddDocument filledDocument]"
  let ?one = "runOps [AddDocument exampleDocument]"
  have two: "documents ?two = [exampleDocument, filledDocument]"
    by (simp add: runOps_def initialState_def addDocument_def)
  have one: "documents ?one = [exampleDocument]" "activeDocument ?one = Some exampleDocument"
    by (simp_all add: runOps_def initialState_def addDocument_def activeDocument_def)
  have fe: "d_fields exampleDocument = []" by (simp add: exampleDocument_def)
  have ff: "d_fields filledDocument \<noteq> []" by (simp add: filledDocument_def)
  have w: "buildFillablePdf echoWriter document \<noteq> None" for document
    by (simp add: buildFillablePdf_def echoWriter_def)
  have 1: "\<exists>blob. handleExportAll echoWriter fixedClock ?two = Download ''fillable-pdfs.zip'' blob"
    using export_selection [of echoWriter fixedClock ?two] two ff w by simp
  have 2: "\<exists>message. handleExportAll echoWriter fixedClock ?one = ErrorMessage message"
    using export_selection [of echoWriter fixedClock ?one] one fe by simp
  have 3: "fillableName ''Letter.PDF'' = ''Letter-fillable.pdf''"
    using export_selection [of echoWriter fixedClock ?one _ _ "''.PDF''" "''Letter''"]
    by (simp add: isPdfSuffix_def)
  have 4: "fillableName ''notes.txt'' = ''notes.txt-fillable.pdf''"
    using export_selection [of echoWriter fixedClock ?one _ _ _ _ "''notes.txt''"]
    by (simp add: isPdfSuffix_def)
  have 5: "handleExportCurrent echoWriter ?one = ErrorMessage ''Nothing to export yet. Add fields first.''"
    using export_selection [of echoWriter fixedClock ?one _ _ _ _ _ exampleDocument] one fe
    by simp
  from 1 2 3 4 5 show ?thesis by blast
qed

end
